theory Spec2Isabelle
  imports Main "HOL-Library.Word"
begin

section \<open>Python text\<close>

text \<open>
  A Python \<^verbatim>\<open>str\<close> is a sequence of Unicode code points. A code point is modelled as a
  natural number, so every text the servers can receive is a value of \<open>str\<close>. A literal
  of the source is written \<open>lit ''...''\<close>.
\<close>

type_synonym str = "nat list"

type_synonym bytes = "nat list"

abbreviation lit :: "string \<Rightarrow> str" where
  "lit s \<equiv> map of_char s"

datatype exc_class =
  TypeError | ValueError | AttributeError | JSONDecodeError | UnicodeError
  | OSError | TimeoutExpired | ImportError | Exception

text \<open>A raised exception: its class and the text \<^verbatim>\<open>str(e)\<close> gives.\<close>

datatype py_error = Raise exc_class str

fun message :: "py_error \<Rightarrow> str" where
  "message (Raise c msg) = msg"

text \<open>
  \<^verbatim>\<open>str.isspace\<close> for one code point, as \<^verbatim>\<open>str.strip()\<close> uses it: the ASCII
  white space and separators, NEL, NBSP and the Unicode space characters.
\<close>

definition isspace :: "nat \<Rightarrow> bool" where
  "isspace c \<longleftrightarrow>
     (9 \<le> c \<and> c \<le> 13) \<or> (28 \<le> c \<and> c \<le> 32) \<or> c = 133 \<or> c = 160 \<or> c = 5760
     \<or> (8192 \<le> c \<and> c \<le> 8202) \<or> c = 8232 \<or> c = 8233 \<or> c = 8239 \<or> c = 8287
     \<or> c = 12288"

text \<open>\<^verbatim>\<open>s.startswith(p)\<close>\<close>

definition startswith :: "str \<Rightarrow> str \<Rightarrow> bool" where
  "startswith s p \<longleftrightarrow> take (length p) s = p"

text \<open>\<^verbatim>\<open>s.strip()\<close>: white space removed at both ends.\<close>

definition strip :: "str \<Rightarrow> str" where
  "strip s = rev (dropWhile isspace (rev (dropWhile isspace s)))"

text \<open>
  \<^verbatim>\<open>s.replace(old, new)\<close>: every occurrence of \<open>old\<close>, found from the left and not
  overlapping, is replaced; the empty pattern matches before every code point and at the end.
\<close>

function replace :: "str \<Rightarrow> str \<Rightarrow> str \<Rightarrow> str" where
  "replace s old new =
     (if old = [] then new @ concat (map (\<lambda>c. c # new) s)
      else if s = [] then []
      else if startswith s old then new @ replace (drop (length old) s) old new
      else hd s # replace (tl s) old new)"
  by pat_completeness auto
termination
  by (relation "measure (\<lambda>(s, old, new). length s)") auto

declare replace.simps [simp del]

text \<open>
  \<^verbatim>\<open>s.split(sep)\<close>: the pieces between the occurrences of \<open>sep\<close>, found from the left;
  an empty separator raises \<^verbatim>\<open>ValueError\<close>.
\<close>

function pieces :: "str \<Rightarrow> str \<Rightarrow> str list" where
  "pieces s sep =
     (if s = [] then [[]]
      else if sep \<noteq> [] \<and> startswith s sep then [] # pieces (drop (length sep) s) sep
      else (case pieces (tl s) sep of
              [] \<Rightarrow> [[hd s]]
            | piece # rest \<Rightarrow> (hd s # piece) # rest))"
  by pat_completeness auto
termination
  by (relation "measure (\<lambda>(s, sep). length s)") auto

declare pieces.simps [simp del]

definition split_str :: "str \<Rightarrow> str \<Rightarrow> py_error + str list" where
  "split_str s sep =
     (if sep = [] then Inl (Raise ValueError (lit ''empty separator''))
      else Inr (pieces s sep))"

text \<open>\<^verbatim>\<open>sep.join(xs)\<close>\<close>

fun join :: "str \<Rightarrow> str list \<Rightarrow> str" where
  "join sep [] = []"
| "join sep [x] = x"
| "join sep (x # y # ys) = x @ sep @ join sep (y # ys)"

text \<open>\<^verbatim>\<open>sub in s\<close>: \<open>sub\<close> occurs in \<open>s\<close> as a contiguous piece.\<close>

fun contains :: "str \<Rightarrow> str \<Rightarrow> bool" where
  "contains [] sub \<longleftrightarrow> sub = []"
| "contains (c # cs) sub \<longleftrightarrow> startswith (c # cs) sub \<or> contains cs sub"

section \<open>The renderer of export-api-v2.py\<close>

text \<open>The request handler object: what \<^verbatim>\<open>self\<close> holds when a method runs.\<close>

record handler =
  path :: str
  headers :: "(str \<times> str) list"
  rfile :: bytes

text \<open>The three pieces of the document template, around \<^verbatim>\<open>{title}\<close> and \<^verbatim>\<open>{html}\<close>.\<close>

definition template_head :: str where
  \<open>template_head = lit
    (''<!DOCTYPE html>\<newline>'' @
     ''<html>\<newline>'' @
     ''<head>\<newline>'' @
     ''    <meta charset="UTF-8">\<newline>'' @
     ''    <title>'')\<close>

definition template_style :: str where
  \<open>template_style = lit
    (''</title>\<newline>'' @
     ''    <style>\<newline>'' @
     ''        body {\<newline>'' @
     ''            font-family: -apple-system, BlinkMacSystemFont, 'Segoe UI', Roboto, 'Helvetica Neue', Arial, sans-serif;\<newline>'' @
     ''            max-width: 800px;\<newline>'' @
     ''            margin: 40px auto;\<newline>'' @
     ''            padding: 20px;\<newline>'' @
     ''            line-height: 1.6;\<newline>'' @
     ''            color: #333;\<newline>'' @
     ''        }\<newline>'' @
     ''        h1 { color: #2c3e50; border-bottom: 2px solid #3498db; padding-bottom: 10px; }\<newline>'' @
     ''        h2 { color: #34495e; margin-top: 24px; }\<newline>'' @
     ''        h3 { color: #7f8c8d; }\<newline>'' @
     ''        pre {\<newline>'' @
     ''            background: #f4f4f4;\<newline>'' @
     ''            padding: 12px;\<newline>'' @
     ''            border-radius: 5px;\<newline>'' @
     ''            overflow-x: auto;\<newline>'' @
     ''            border-left: 3px solid #3498db;\<newline>'' @
     ''        }\<newline>'' @
     ''        code {\<newline>'' @
     ''            background: #f4f4f4;\<newline>'' @
     ''            padding: 2px 6px;\<newline>'' @
     ''            border-radius: 3px;\<newline>'' @
     ''            font-family: 'Courier New', monospace;\<newline>'' @
     ''        }\<newline>'' @
     ''        p { margin: 12px 0; }\<newline>'' @
     ''        hr { border: none; border-top: 1px solid #ddd; margin: 24px 0; }\<newline>'' @
     ''    </style>\<newline>'' @
     ''</head>\<newline>'' @
     ''<body>\<newline>'')\<close>

definition template_tail :: str where
  \<open>template_tail = lit
    (''\<newline>'' @
     ''</body>\<newline>'' @
     ''</html>'')\<close>

definition template :: "str \<Rightarrow> str \<Rightarrow> str" where
  "template title html = template_head @ title @ template_style @ html @ template_tail"

text \<open>
  The loop over the lines: \<open>formatted_lines\<close> is the list the source appends to, and
  the branches are the source's \<^verbatim>\<open>if\<close>/\<^verbatim>\<open>elif\<close> chain in its order.
\<close>

fun format_loop :: "str list \<Rightarrow> str list \<Rightarrow> str list" where
  "format_loop [] formatted_lines = formatted_lines"
| "format_loop (line # lines) formatted_lines =
     format_loop lines
       (if startswith line (lit ''#### '') then
          formatted_lines @ [lit ''<h4>'' @ drop 5 line @ lit ''</h4>'']
        else if startswith line (lit ''### '') then
          formatted_lines @ [lit ''<h3>'' @ drop 4 line @ lit ''</h3>'']
        else if startswith line (lit ''## '') then
          formatted_lines @ [lit ''<h2>'' @ drop 3 line @ lit ''</h2>'']
        else if startswith line (lit ''# '') then
          formatted_lines @ [lit ''<h1>'' @ drop 2 line @ lit ''</h1>'']
        else if strip line = lit ''---'' then
          formatted_lines @ [lit ''<hr>'']
        else if strip line \<noteq> [] then
          formatted_lines @ [lit ''<p>'' @ line @ lit ''</p>'']
        else
          formatted_lines @ [lit ''<br>''])"

definition markdown_to_html :: "handler \<Rightarrow> str \<Rightarrow> str \<Rightarrow> py_error + str" where
  "markdown_to_html self markdown title =
     (let html = replace (replace (replace markdown (lit ''&'') (lit ''&amp;''))
                   (lit ''<'') (lit ''&lt;'')) (lit ''>'') (lit ''&gt;'')
      in case split_str html (lit ''\<newline>'') of
           Inl e \<Rightarrow> Inl e
         | Inr lines \<Rightarrow>
             (let formatted_lines = format_loop lines [];
                  html = join (lit ''\<newline>'') formatted_lines
              in Inr (template title html)))"

section \<open>The classification of the specification\<close>

text \<open>The escaping of line 29, and what it does to one code point.\<close>

definition escape_char :: "nat \<Rightarrow> str" where
  "escape_char c =
     (if c = of_char CHR ''&'' then lit ''&amp;''
      else if c = of_char CHR ''<'' then lit ''&lt;''
      else if c = of_char CHR ''>'' then lit ''&gt;''
      else [c])"

definition escaped :: "str \<Rightarrow> str" where
  "escaped markdown =
     replace (replace (replace markdown (lit ''&'') (lit ''&amp;''))
       (lit ''<'') (lit ''&lt;'')) (lit ''>'') (lit ''&gt;'')"

text \<open>The blocks the loop has collected when it ends: \<open>formatted_lines\<close> at line 52.\<close>

definition formatted_lines :: "str \<Rightarrow> str list" where
  "formatted_lines markdown = format_loop (pieces (escaped markdown) (lit ''\<newline>'')) []"

text \<open>
  The seven classifications as the specification words them, the block each one renders
  to, and the first-match order of the specification's algorithm.
\<close>

datatype kind = H4 | H3 | H2 | H1 | HorizontalRule | Paragraph | LineBreak

fun applies :: "kind \<Rightarrow> str \<Rightarrow> bool" where
  "applies H4 line \<longleftrightarrow> startswith line (lit ''#### '')"
| "applies H3 line \<longleftrightarrow> startswith line (lit ''### '')"
| "applies H2 line \<longleftrightarrow> startswith line (lit ''## '')"
| "applies H1 line \<longleftrightarrow> startswith line (lit ''# '')"
| "applies HorizontalRule line \<longleftrightarrow> strip line = lit ''---''"
| "applies Paragraph line \<longleftrightarrow>
     strip line \<noteq> [] \<and> \<not> startswith line (lit ''#### '') \<and> \<not> startswith line (lit ''### '')
     \<and> \<not> startswith line (lit ''## '') \<and> \<not> startswith line (lit ''# '')
     \<and> strip line \<noteq> lit ''---''"
| "applies LineBreak line \<longleftrightarrow> list_all isspace line"

definition classify :: "str \<Rightarrow> kind" where
  "classify line =
     (if applies H4 line then H4
      else if applies H3 line then H3
      else if applies H2 line then H2
      else if applies H1 line then H1
      else if applies HorizontalRule line then HorizontalRule
      else if applies Paragraph line then Paragraph
      else LineBreak)"

fun render_block :: "kind \<Rightarrow> str \<Rightarrow> str" where
  "render_block H4 line = lit ''<h4>'' @ drop 5 line @ lit ''</h4>''"
| "render_block H3 line = lit ''<h3>'' @ drop 4 line @ lit ''</h3>''"
| "render_block H2 line = lit ''<h2>'' @ drop 3 line @ lit ''</h2>''"
| "render_block H1 line = lit ''<h1>'' @ drop 2 line @ lit ''</h1>''"
| "render_block HorizontalRule line = lit ''<hr>''"
| "render_block Paragraph line = lit ''<p>'' @ line @ lit ''</p>''"
| "render_block LineBreak line = lit ''<br>''"

definition render_line :: "str \<Rightarrow> str" where
  "render_line line = render_block (classify line) line"


section \<open>The request handlers\<close>

text \<open>
  A value that \<^verbatim>\<open>json.loads\<close> returns. A float is its IEEE 754 bit pattern; a JSON object
  is the list of the items of the resulting \<^verbatim>\<open>dict\<close>.
\<close>

datatype json =
  JNull | JBool bool | JInt int | JFloat "64 word" | JStr str
  | JArr "json list" | JObj "(str \<times> json) list"

text \<open>The truth value Python gives a parsed value, as \<^verbatim>\<open>not markdown\<close> tests it.\<close>

fun truthy :: "json \<Rightarrow> bool" where
  "truthy JNull \<longleftrightarrow> False"
| "truthy (JBool b) \<longleftrightarrow> b"
| "truthy (JInt n) \<longleftrightarrow> n \<noteq> 0"
| "truthy (JFloat w) \<longleftrightarrow> take_bit 63 w \<noteq> 0"
| "truthy (JStr s) \<longleftrightarrow> s \<noteq> []"
| "truthy (JArr xs) \<longleftrightarrow> xs \<noteq> []"
| "truthy (JObj kvs) \<longleftrightarrow> kvs \<noteq> []"

text \<open>The name of the Python type of a parsed value, and the error for a missing method.\<close>

fun type_name :: "json \<Rightarrow> str" where
  "type_name JNull = lit ''NoneType''"
| "type_name (JBool b) = lit ''bool''"
| "type_name (JInt n) = lit ''int''"
| "type_name (JFloat w) = lit ''float''"
| "type_name (JStr s) = lit ''str''"
| "type_name (JArr xs) = lit ''list''"
| "type_name (JObj kvs) = lit ''dict''"

definition no_attribute :: "json \<Rightarrow> str \<Rightarrow> py_error" where
  "no_attribute v name =
     Raise AttributeError
       ([39] @ type_name v @ [39] @ lit '' object has no attribute '' @ [39] @ name @ [39])"

text \<open>\<^verbatim>\<open>data.get(key, dflt)\<close>: only a \<^verbatim>\<open>dict\<close> has the method.\<close>

fun dict_get :: "json \<Rightarrow> str \<Rightarrow> json \<Rightarrow> py_error + json" where
  "dict_get (JObj kvs) key dflt =
     Inr (case map_of kvs key of None \<Rightarrow> dflt | Some v \<Rightarrow> v)"
| "dict_get data key dflt = Inl (no_attribute data (lit ''get''))"

text \<open>
  What \<^verbatim>\<open>convert_to_docx\<close> adds to the document: a heading with its level, or a
  paragraph.
\<close>

datatype docx_item = Heading nat str | Para str

text \<open>What a handler does to the outside world, in the order it does it.\<close>

datatype event =
  SendError nat "str option"
  | SendResponse nat
  | SendHeader str str
  | EndHeaders
  | WfileWrite bytes
  | Print str
  | WriteFile str str
  | RunScript "str list"
  | ReadFile str
  | Unlink str
  | UrlOpen str bytes "(str \<times> str) list"
  | DocxSave "docx_item list"

text \<open>
  The library functions and the outside world the handlers call: each field is what the
  call returns or raises.
\<close>

record env =
  py_int :: "str \<Rightarrow> py_error + int"
  json_loads :: "bytes \<Rightarrow> py_error + json"
  bytes_repr :: "bytes \<Rightarrow> str"
  str_of :: "json \<Rightarrow> str"
  time_time :: int
  time_str :: str
  utf8_encode :: "str \<Rightarrow> py_error + bytes"
  md5_hexdigest :: "bytes \<Rightarrow> str"
  GOTENBERG_URL :: str
  urlopen :: "str \<Rightarrow> bytes \<Rightarrow> py_error + bytes"
  docx_installed :: bool
  docx_save :: "docx_item list \<Rightarrow> py_error + bytes"
  gettempdir :: str
  temp_name :: "py_error + str"
  script_dir :: str
  write_file :: "str \<Rightarrow> str \<Rightarrow> py_error option"
  subprocess_run :: "str list \<Rightarrow> py_error + int \<times> str"
  path_exists :: "str \<Rightarrow> bool"
  read_file :: "str \<Rightarrow> py_error + bytes"
  unlink :: "str \<Rightarrow> py_error option"

text \<open>
  How a block of statements ends: an exception, a \<^verbatim>\<open>return\<close>, or a value to go on
  with. A computation is the events so far and that end.
\<close>

datatype 'a flow = Raised py_error | Returned | Value 'a

type_synonym 'a io = "event list \<times> 'a flow"

definition io_bind :: "'a io \<Rightarrow> ('a \<Rightarrow> 'b io) \<Rightarrow> 'b io" where
  "io_bind m f =
     (case m of
        (evs, Raised e) \<Rightarrow> (evs, Raised e)
      | (evs, Returned) \<Rightarrow> (evs, Returned)
      | (evs, Value x) \<Rightarrow> (case f x of (evs', r) \<Rightarrow> (evs @ evs', r)))"

definition emit :: "event list \<Rightarrow> unit io" where
  "emit evs = (evs, Value ())"

definition call :: "py_error + 'a \<Rightarrow> 'a io" where
  "call r = (case r of Inl e \<Rightarrow> ([], Raised e) | Inr x \<Rightarrow> ([], Value x))"

definition effect :: "event \<Rightarrow> py_error option \<Rightarrow> unit io" where
  "effect ev r = (case r of Some e \<Rightarrow> ([ev], Raised e) | None \<Rightarrow> ([ev], Value ()))"

text \<open>\<^verbatim>\<open>str(n)\<close> for an integer.\<close>

function str_of_nat :: "nat \<Rightarrow> str" where
  "str_of_nat n =
     (if n < 10 then [of_char CHR ''0'' + n]
      else str_of_nat (n div 10) @ [of_char CHR ''0'' + n mod 10])"
  by pat_completeness auto
termination
  by (relation "measure id") auto

declare str_of_nat.simps [simp del]

definition str_of_int :: "int \<Rightarrow> str" where
  "str_of_int i =
     (if i < 0 then of_char CHR ''-'' # str_of_nat (nat (- i)) else str_of_nat (nat i))"

text \<open>\<^verbatim>\<open>os.path.join(a, b)\<close> for a relative \<open>b\<close>.\<close>

definition path_join :: "str \<Rightarrow> str \<Rightarrow> str" where
  "path_join a b =
     (if a = [] \<or> last a = of_char CHR ''/'' then a @ b else a @ lit ''/'' @ b)"

text \<open>
  \<^verbatim>\<open>self.headers[name]\<close>: the value of the first header with that name, letter case
  apart, or \<^verbatim>\<open>None\<close>.
\<close>

definition lower :: "nat \<Rightarrow> nat" where
  "lower c = (if 65 \<le> c \<and> c \<le> 90 then c + 32 else c)"

definition get_header :: "handler \<Rightarrow> str \<Rightarrow> str option" where
  "get_header self name =
     map_of (map (\<lambda>(k, v). (map lower k, v)) (headers self)) (map lower name)"

text \<open>
  The first two statements of every \<^verbatim>\<open>do_POST\<close>:
  \<^verbatim>\<open>content_length = int(self.headers['Content-Length'])\<close> and
  \<^verbatim>\<open>post_data = self.rfile.read(content_length)\<close>.
\<close>

definition read_post_data :: "env \<Rightarrow> handler \<Rightarrow> bytes io" where
  "read_post_data env self =
     io_bind
       (call (case get_header self (lit ''Content-Length'') of
                None \<Rightarrow>
                  Inl (Raise TypeError
                    (lit (''int() argument must be a string, a bytes-like object '' @
                          ''or a real number, not '') @ [39] @ lit ''NoneType'' @ [39]))
              | Some v \<Rightarrow> py_int env v))
       (\<lambda>content_length.
          if content_length < - 1 then
            ([], Raised (Raise ValueError (lit ''read length must be non-negative or -1'')))
          else if content_length = - 1 then ([], Value (rfile self))
          else ([], Value (take (nat content_length) (rfile self))))"

text \<open>What \<^verbatim>\<open>except Exception as e: self.send_error(500, str(e))\<close> makes of a block.\<close>

definition except_500 :: "'a io \<Rightarrow> unit io" where
  "except_500 m =
     (case m of
        (evs, Raised e) \<Rightarrow> (evs @ [SendError 500 (Some (message e))], Value ())
      | (evs, Returned) \<Rightarrow> (evs, Returned)
      | (evs, Value x) \<Rightarrow> (evs, Value ()))"

text \<open>What an f-string makes of a parsed value: a text as it is, anything else by \<^verbatim>\<open>str\<close>.\<close>

definition format_str :: "env \<Rightarrow> json \<Rightarrow> str" where
  "format_str env v = (case v of JStr s \<Rightarrow> s | _ \<Rightarrow> str_of env v)"

text \<open>The error of passing something that is not text where a text is needed.\<close>

definition not_str :: "str \<Rightarrow> json \<Rightarrow> py_error" where
  "not_str what v = Raise TypeError (what @ lit '', not '' @ type_name v)"

subsection \<open>export-api-v2.py\<close>

definition convert_to_pdf :: "env \<Rightarrow> handler \<Rightarrow> str \<Rightarrow> bytes io" where
  \<open>convert_to_pdf env self html_content =
     (case
        (let boundary = lit ''----WebKitFormBoundary''
               @ take 16 (md5_hexdigest env (time_str env))
         in io_bind (call (utf8_encode env html_content))
           (\<lambda>html_bytes.
              let body_bytes = join [13, 10]
                    [lit ''--'' @ boundary,
                     lit ''Content-Disposition: form-data; name="files"; filename="index.html"'',
                     lit ''Content-Type: text/html'',
                     [],
                     html_bytes,
                     lit ''--'' @ boundary @ lit ''--'',
                     []];
                  url = GOTENBERG_URL env @ lit ''/forms/chromium/convert/html''
              in io_bind
                   (emit [UrlOpen url body_bytes
                      [(lit ''Content-Type'', lit ''multipart/form-data; boundary='' @ boundary)]])
                   (\<lambda>_. call (urlopen env url body_bytes))))
      of
        (evs, Raised e) \<Rightarrow>
          (evs, Raised (Raise Exception (lit ''Gotenberg conversion failed: '' @ message e)))
      | r \<Rightarrow> r)\<close>

text \<open>The items \<^verbatim>\<open>convert_to_docx\<close> adds for one line of the markdown text.\<close>

definition docx_line :: "str \<Rightarrow> docx_item list" where
  "docx_line line0 =
     (let line = strip line0 in
      if line = [] then []
      else if startswith line (lit ''# '') then [Heading 1 (drop 2 line)]
      else if startswith line (lit ''## '') then [Heading 2 (drop 3 line)]
      else if startswith line (lit ''### '') then [Heading 3 (drop 4 line)]
      else if startswith line (lit ''---'') then [Para (replicate 50 (of_char CHR ''_''))]
      else [Para line])"

definition convert_to_docx :: "env \<Rightarrow> handler \<Rightarrow> str \<Rightarrow> bytes io" where
  "convert_to_docx env self markdown =
     (if \<not> docx_installed env then
        ([], Raised (Raise Exception (lit ''python-docx not installed. PDF export only.'')))
      else
        io_bind (call (split_str markdown (lit ''\<newline>'')))
          (\<lambda>lines.
             let doc = Heading 0 (lit ''Conversation Export'') # concat (map docx_line lines)
             in io_bind (emit [DocxSave doc]) (\<lambda>_. call (docx_save env doc))))"

text \<open>The body of the \<^verbatim>\<open>try\<close> statement of \<^verbatim>\<open>do_POST\<close>.\<close>

definition v2_try :: "env \<Rightarrow> handler \<Rightarrow> bytes \<Rightarrow> unit io" where
  "v2_try env self post_data =
     io_bind
       (case json_loads env post_data of
          Inl (Raise c msg) \<Rightarrow>
            if c = JSONDecodeError then
              ([Print (10060 # lit '' JSON decode error: '' @ msg),
                Print (lit ''   Raw data: '' @ bytes_repr env (take 200 post_data))],
               Raised (Raise Exception (lit ''Invalid JSON: '' @ msg)))
            else ([], Raised (Raise c msg))
        | Inr data \<Rightarrow> ([], Value data))
       (\<lambda>data.
     io_bind (call (dict_get data (lit ''markdown'') (JStr [])))
       (\<lambda>markdown.
     io_bind (call (dict_get data (lit ''format'') (JStr (lit ''pdf''))))
       (\<lambda>format_type.
     if \<not> truthy markdown then
       ([SendError 400 (Some (lit ''No markdown content provided''))], Returned)
     else
     io_bind
       (case markdown of
          JStr m \<Rightarrow> io_bind (call (utf8_encode env m)) (\<lambda>b. ([], Value (m, b)))
        | _ \<Rightarrow> ([], Raised (no_attribute markdown (lit ''encode''))))
       (\<lambda>(m, encoded).
     let timestamp = time_time env;
         hash_id = take 8 (md5_hexdigest env encoded);
         filename = lit ''conversation-'' @ str_of_int timestamp @ lit ''-'' @ hash_id
           @ lit ''.'' @ format_str env format_type
     in
     io_bind
       (if format_type = JStr (lit ''pdf'') then
          io_bind (call (markdown_to_html self m (lit ''Conversation Export'')))
            (\<lambda>html_content.
          io_bind (convert_to_pdf env self html_content)
            (\<lambda>file_content. ([], Value (file_content, lit ''application/pdf''))))
        else if format_type = JStr (lit ''docx'') then
          io_bind (convert_to_docx env self m)
            (\<lambda>file_content. ([], Value (file_content,
               lit ''application/vnd.openxmlformats-officedocument.wordprocessingml.document'')))
        else
          ([SendError 400 (Some (lit ''Unsupported format: '' @ format_str env format_type))],
           Returned))
       (\<lambda>(file_content, content_type).
     emit
       [SendResponse 200,
        SendHeader (lit ''Access-Control-Allow-Origin'') (lit ''*''),
        SendHeader (lit ''Content-Type'') content_type,
        SendHeader (lit ''Content-Disposition'')
          (lit ''attachment; filename='' @ [34] @ filename @ [34]),
        SendHeader (lit ''Content-Length'') (str_of_nat (length file_content)),
        EndHeaders,
        WfileWrite file_content,
        Print (9989 # lit '' Converted and sent '' @ filename)])))))"

definition v2_do_POST :: "env \<Rightarrow> handler \<Rightarrow> unit io" where
  "v2_do_POST env self =
     (if path self = lit ''/api/convert'' then
        io_bind (read_post_data env self)
          (\<lambda>post_data.
             case v2_try env self post_data of
               (evs, Raised e) \<Rightarrow>
                 (evs @ [Print (10060 # lit '' Conversion error: '' @ message e),
                         SendError 500 (Some (message e))], Value ())
             | r \<Rightarrow> r)
      else ([SendError 404 None], Value ()))"

subsection \<open>export-api.py\<close>

definition v1_try :: "env \<Rightarrow> handler \<Rightarrow> bytes \<Rightarrow> unit io" where
  "v1_try env self post_data =
     io_bind (call (json_loads env post_data))
       (\<lambda>data.
     io_bind (call (dict_get data (lit ''markdown'') (JStr [])))
       (\<lambda>markdown.
     io_bind (call (dict_get data (lit ''format'') (JStr (lit ''pdf''))))
       (\<lambda>format_type.
     if \<not> truthy markdown then
       ([SendError 400 (Some (lit ''No markdown content provided''))], Returned)
     else
     io_bind
       (case markdown of
          JStr m \<Rightarrow> io_bind (call (utf8_encode env m)) (\<lambda>b. ([], Value (m, b)))
        | _ \<Rightarrow> ([], Raised (no_attribute markdown (lit ''encode''))))
       (\<lambda>(m, encoded).
     let timestamp = time_time env;
         hash_id = take 8 (md5_hexdigest env encoded);
         filename = lit ''conversation-'' @ str_of_int timestamp @ lit ''-'' @ hash_id;
         temp_dir = gettempdir env;
         temp_md = path_join temp_dir (filename @ lit ''.md'')
     in
     io_bind (effect (WriteFile temp_md m) (write_file env temp_md m))
       (\<lambda>_.
     let output_file = path_join temp_dir (filename @ lit ''.'' @ format_str env format_type);
         script_path = lit ''/app/convert-export.sh''
     in
     io_bind
       (case format_type of
          JStr f \<Rightarrow>
            io_bind (emit [RunScript [script_path, temp_md, f]])
              (\<lambda>_. io_bind (call (subprocess_run env [script_path, temp_md, f]))
                 (\<lambda>result. ([], Value (f, result))))
        | _ \<Rightarrow>
            ([], Raised (not_str (lit ''expected str, bytes or os.PathLike object'') format_type)))
       (\<lambda>(f, returncode, stderr).
     if returncode \<noteq> 0 \<or> \<not> path_exists env output_file then
       ([SendError 500 (Some (lit ''Conversion failed: '' @ stderr))], Returned)
     else
     io_bind (io_bind (emit [ReadFile output_file]) (\<lambda>_. call (read_file env output_file)))
       (\<lambda>content.
     io_bind
       (emit
          [SendResponse 200,
           SendHeader (lit ''Access-Control-Allow-Origin'') (lit ''*''),
           SendHeader (lit ''Content-Type'')
             (if format_type = JStr (lit ''pdf'') then lit ''application/pdf''
              else lit ''application/vnd.openxmlformats-officedocument.wordprocessingml.document''),
           SendHeader (lit ''Content-Disposition'')
             (lit ''attachment; filename='' @ [34] @ filename @ lit ''.'' @ f @ [34]),
           SendHeader (lit ''Content-Length'') (str_of_nat (length content)),
           EndHeaders,
           WfileWrite content])
       (\<lambda>_.
     case io_bind (effect (Unlink temp_md) (unlink env temp_md))
            (\<lambda>_. effect (Unlink output_file) (unlink env output_file)) of
       (evs, r) \<Rightarrow> (evs, Value ())))))))))"

definition v1_do_POST :: "env \<Rightarrow> handler \<Rightarrow> unit io" where
  "v1_do_POST env self =
     (if path self = lit ''/api/convert'' then
        io_bind (read_post_data env self)
          (\<lambda>post_data. except_500 (v1_try env self post_data))
      else ([SendError 404 None], Value ()))"

subsection \<open>download-server.py\<close>

definition download_try :: "env \<Rightarrow> handler \<Rightarrow> json \<Rightarrow> json \<Rightarrow> unit io" where
  "download_try env self markdown format_type =
     io_bind (call (temp_name env))
       (\<lambda>temp_md.
     io_bind
       (case markdown of
          JStr m \<Rightarrow> effect (WriteFile temp_md m) (write_file env temp_md m)
        | _ \<Rightarrow> ([], Raised (not_str (lit ''write() argument must be str'') markdown)))
       (\<lambda>_.
     let output_file = replace temp_md (lit ''.md'') (lit ''.'' @ format_str env format_type);
         script = script_dir env @ lit ''/convert-export.sh''
     in
     io_bind
       (case format_type of
          JStr f \<Rightarrow>
            io_bind (emit [RunScript [script, temp_md, f]])
              (\<lambda>_. io_bind (call (subprocess_run env [script, temp_md, f]))
                 (\<lambda>result. ([], Value (f, result))))
        | _ \<Rightarrow>
            ([], Raised (not_str (lit ''expected str, bytes or os.PathLike object'') format_type)))
       (\<lambda>(f, returncode, stderr).
     if returncode \<noteq> 0 then
       ([SendError 500 (Some (lit ''Conversion failed: '' @ stderr))], Returned)
     else
     io_bind (io_bind (emit [ReadFile output_file]) (\<lambda>_. call (read_file env output_file)))
       (\<lambda>content.
     io_bind
       (emit
          [SendResponse 200,
           SendHeader (lit ''Content-type'')
             (if format_type = JStr (lit ''pdf'') then lit ''application/pdf''
              else lit ''application/vnd.openxmlformats-officedocument.wordprocessingml.document''),
           SendHeader (lit ''Content-Disposition'')
             (lit ''attachment; filename='' @ [34] @ lit ''conversation.'' @ f @ [34]),
           SendHeader (lit ''Content-Length'') (str_of_nat (length content)),
           EndHeaders,
           WfileWrite content])
       (\<lambda>_.
     io_bind (effect (Unlink temp_md) (unlink env temp_md))
       (\<lambda>_. effect (Unlink output_file) (unlink env output_file)))))))"

definition download_do_POST :: "env \<Rightarrow> handler \<Rightarrow> unit io" where
  "download_do_POST env self =
     (if path self = lit ''/convert'' then
        io_bind (read_post_data env self)
          (\<lambda>post_data.
        io_bind (call (json_loads env post_data))
          (\<lambda>data.
        io_bind (call (dict_get data (lit ''markdown'') (JStr [])))
          (\<lambda>markdown.
        io_bind (call (dict_get data (lit ''format'') (JStr (lit ''pdf''))))
          (\<lambda>format_type.
        if \<not> truthy markdown then
          ([SendError 400 (Some (lit ''No markdown content provided''))], Returned)
        else except_500 (download_try env self markdown format_type)))))
      else ([SendError 404 None], Value ()))"

subsection \<open>Example requests\<close>

text \<open>
  A world in which the body \<^verbatim>\<open>{}\<close> parses to the empty object and nothing else
  succeeds, and two requests with that body, one for each conversion path.
\<close>

definition example_env :: env where
  "example_env =
     \<lparr>py_int = (\<lambda>s. if s = lit ''2'' then Inr 2 else Inl (Raise ValueError [])),
      json_loads = (\<lambda>b. if b = lit ''{}'' then Inr (JObj []) else Inl (Raise JSONDecodeError [])),
      bytes_repr = (\<lambda>b. b),
      str_of = (\<lambda>v. []),
      time_time = 0,
      time_str = lit ''0.0'',
      utf8_encode = (\<lambda>s. Inr s),
      md5_hexdigest = (\<lambda>b. []),
      GOTENBERG_URL = lit ''http://gotenberg:3000'',
      urlopen = (\<lambda>url body. Inl (Raise OSError [])),
      docx_installed = False,
      docx_save = (\<lambda>doc. Inl (Raise OSError [])),
      gettempdir = lit ''/tmp'',
      temp_name = Inl (Raise OSError []),
      script_dir = lit ''/app'',
      write_file = (\<lambda>p s. Some (Raise OSError [])),
      subprocess_run = (\<lambda>argv. Inl (Raise OSError [])),
      path_exists = (\<lambda>p. False),
      read_file = (\<lambda>p. Inl (Raise OSError [])),
      unlink = (\<lambda>p. Some (Raise OSError []))\<rparr>"

definition example_request :: "str \<Rightarrow> handler" where
  "example_request p =
     \<lparr>path = p, headers = [(lit ''Content-Length'', lit ''2'')], rfile = lit ''{}''\<rparr>"

section \<open>Facts about Python text\<close>

lemma startswith_Nil [simp]: "startswith s []"
  by (simp add: startswith_def)

lemma startswith_Cons [simp]:
  "startswith (c # cs) (p # ps) \<longleftrightarrow> c = p \<and> startswith cs ps"
  by (auto simp: startswith_def)

lemma startswith_Nil_left [simp]: "startswith [] p \<longleftrightarrow> p = []"
  by (auto simp: startswith_def)

lemma startswith_iff: "startswith s p \<longleftrightarrow> (\<exists>r. s = p @ r)"
  unfolding startswith_def
  by (metis append_eq_conv_conj append_take_drop_id)

lemma replace_single:
  "replace s [x] new = concat (map (\<lambda>c. if c = x then new else [c]) s)"
proof (induction s)
  case Nil
  show ?case by (simp add: replace.simps)
next
  case (Cons a s)
  show ?case
    by (subst replace.simps) (simp add: Cons.IH)
qed

lemma pieces_Nil [simp]: "pieces [] sep = [[]]"
  by (simp add: pieces.simps)

lemma pieces_not_Nil [simp]: "pieces s sep \<noteq> []"
proof (induction s sep rule: pieces.induct)
  case (1 s sep)
  show ?case
    by (subst pieces.simps) (simp split: list.splits)
qed

lemma pieces_single_Cons:
  "pieces (x # xs) [c] =
     (if x = c then [] # pieces xs [c]
      else (x # hd (pieces xs [c])) # tl (pieces xs [c]))"
  by (subst pieces.simps) (simp split: list.splits)

lemma join_pieces: "join [c] (pieces s [c]) = s"
proof (induction s)
  case Nil
  show ?case by simp
next
  case (Cons x xs)
  obtain l ls where p: "pieces xs [c] = l # ls"
    by (cases "pieces xs [c]") simp_all
  show ?case
    using Cons.IH by (cases ls) (simp_all add: pieces_single_Cons p)
qed

lemma pieces_free: "l \<in> set (pieces s [c]) \<Longrightarrow> c \<notin> set l"
proof (induction s arbitrary: l)
  case Nil
  then show ?case by simp
next
  case (Cons x xs)
  obtain p ps where p: "pieces xs [c] = p # ps"
    by (cases "pieces xs [c]") simp_all
  from Cons show ?case
    by (auto simp: pieces_single_Cons p split: if_splits)
qed

lemma length_pieces: "length (pieces s [c]) = Suc (count_list s c)"
proof (induction s)
  case Nil
  show ?case by simp
next
  case (Cons x xs)
  obtain p ps where p: "pieces xs [c] = p # ps"
    by (cases "pieces xs [c]") simp_all
  from Cons show ?case
    by (simp add: pieces_single_Cons p)
qed

lemma pieces_append_free:
  "c \<notin> set a \<Longrightarrow> pieces (a @ s) [c] = (a @ hd (pieces s [c])) # tl (pieces s [c])"
  by (induction a) (simp_all add: pieces_single_Cons)

lemma pieces_join:
  "xs \<noteq> [] \<Longrightarrow> \<forall>x\<in>set xs. c \<notin> set x \<Longrightarrow> pieces (join [c] xs) [c] = xs"
proof (induction xs)
  case Nil
  then show ?case by simp
next
  case (Cons x xs)
  show ?case
  proof (cases xs)
    case Nil
    with Cons.prems show ?thesis
      using pieces_append_free[of c x "[]"] by simp
  next
    case (Cons y ys)
    with Cons.prems Cons.IH show ?thesis
      by (simp add: pieces_append_free pieces_single_Cons)
  qed
qed

lemma concat_map_append_fun:
  "concat (map f (xs @ ys)) = concat (map f xs) @ concat (map f ys)"
  by simp

lemma escaped_eq: "escaped m = concat (map escape_char m)"
  unfolding escaped_def
  by (induction m) (simp_all add: replace_single escape_char_def)

lemma dropWhile_all_iff:
  "(\<forall>x\<in>set (dropWhile P s). P x) \<longleftrightarrow> (\<forall>x\<in>set s. P x)"
proof
  assume h: "\<forall>x\<in>set (dropWhile P s). P x"
  have "dropWhile P s = []"
  proof (rule ccontr)
    assume n: "dropWhile P s \<noteq> []"
    then have "\<not> P (hd (dropWhile P s))" by (rule hd_dropWhile)
    moreover from n have "hd (dropWhile P s) \<in> set (dropWhile P s)" by simp
    ultimately show False using h by blast
  qed
  then show "\<forall>x\<in>set s. P x" by (simp add: dropWhile_eq_Nil_conv)
next
  assume "\<forall>x\<in>set s. P x"
  then show "\<forall>x\<in>set (dropWhile P s). P x"
    using set_dropWhileD by fast
qed

lemma strip_Nil_iff: "strip s = [] \<longleftrightarrow> list_all isspace s"
  by (simp add: strip_def dropWhile_eq_Nil_conv dropWhile_all_iff list_all_iff)

lemma format_loop_single:
  "format_loop [line] [] = [render_line line]"
  by (simp add: render_line_def classify_def strip_Nil_iff)

lemma format_loop_Cons:
  "format_loop (l # ls) acc = format_loop ls (acc @ format_loop [l] [])"
  by simp

lemma format_loop_map: "format_loop lines acc = acc @ map render_line lines"
proof (induction lines arbitrary: acc)
  case Nil
  show ?case by simp
next
  case (Cons l ls)
  show ?case
    by (subst format_loop_Cons) (simp only: Cons.IH format_loop_single, simp)
qed

lemma escaped_Nil [simp]: "escaped [] = []"
  by (simp add: escaped_eq)

lemma escaped_Cons: "escaped (c # cs) = escape_char c @ escaped cs"
  by (simp add: escaped_eq)

lemma escaped_append: "escaped (a @ b) = escaped a @ escaped b"
  by (simp add: escaped_eq)

lemma newline_escape_char: "10 \<in> set (escape_char c) \<longleftrightarrow> c = 10"
  by (simp add: escape_char_def)

lemma escape_char_newline: "escape_char 10 = [10]"
  by (simp add: escape_char_def)

lemma pieces_escaped: "pieces (escaped m) [10] = map escaped (pieces m [10])"
proof (induction m)
  case Nil
  show ?case by simp
next
  case (Cons x xs)
  show ?case
  proof (cases "x = 10")
    case True
    then show ?thesis
      by (simp add: escaped_Cons escape_char_newline pieces_single_Cons Cons.IH)
  next
    case False
    then have "10 \<notin> set (escape_char x)"
      by (simp add: newline_escape_char)
    then have "pieces (escaped (x # xs)) [10] =
        (escape_char x @ hd (pieces (escaped xs) [10])) # tl (pieces (escaped xs) [10])"
      by (simp add: escaped_Cons pieces_append_free)
    with False show ?thesis
      by (simp add: Cons.IH pieces_single_Cons hd_map map_tl escaped_Cons)
  qed
qed

lemma markdown_to_html_eq:
  "markdown_to_html self m t =
     Inr (template t (join (lit ''\<newline>'') (map render_line (pieces (escaped m) (lit ''\<newline>'')))))"
  by (simp add: markdown_to_html_def split_str_def escaped_def format_loop_map Let_def)

lemma contains_iff: "contains s sub \<longleftrightarrow> (\<exists>ps ss. s = ps @ sub @ ss)"
proof (induction s)
  case Nil
  show ?case by auto
next
  case (Cons c cs)
  show ?case
  proof
    assume "contains (c # cs) sub"
    then consider "startswith (c # cs) sub" | "contains cs sub" by auto
    then show "\<exists>ps ss. c # cs = ps @ sub @ ss"
    proof cases
      case 1
      then obtain r where "c # cs = sub @ r" by (auto simp: startswith_iff)
      then have "c # cs = [] @ sub @ r" by simp
      then show ?thesis by blast
    next
      case 2
      then obtain ps ss where "cs = ps @ sub @ ss" using Cons.IH by blast
      then have "c # cs = (c # ps) @ sub @ ss" by simp
      then show ?thesis by blast
    qed
  next
    assume "\<exists>ps ss. c # cs = ps @ sub @ ss"
    then obtain ps ss where e: "c # cs = ps @ sub @ ss" by blast
    show "contains (c # cs) sub"
    proof (cases ps)
      case Nil
      with e have "startswith (c # cs) sub" by (auto simp: startswith_iff)
      then show ?thesis by simp
    next
      case (Cons p ps')
      with e have "cs = ps' @ sub @ ss" by simp
      then have "contains cs sub" using Cons.IH by blast
      then show ?thesis by simp
    qed
  qed
qed

lemma contains_appendI: "contains b sub \<Longrightarrow> contains (a @ b @ c) sub"
proof -
  assume "contains b sub"
  then obtain ps ss where "b = ps @ sub @ ss" by (auto simp: contains_iff)
  then have "a @ b @ c = (a @ ps) @ sub @ (ss @ c)" by simp
  then show ?thesis unfolding contains_iff by blast
qed

lemma contains_set: "contains s sub \<Longrightarrow> set sub \<subseteq> set s"
  by (auto simp: contains_iff)

lemma contains_escaped: "contains m sub \<Longrightarrow> contains (escaped m) (escaped sub)"
proof -
  assume "contains m sub"
  then obtain ps ss where "m = ps @ sub @ ss" by (auto simp: contains_iff)
  then have "escaped m = escaped ps @ escaped sub @ escaped ss"
    by (simp add: escaped_append)
  then show ?thesis unfolding contains_iff by blast
qed

text \<open>An occurrence of sub in a @ b lies in a, lies in b, or straddles the seam.\<close>

lemma contains_append_cases:
  assumes "contains (a @ b) sub"
  shows "contains a sub \<or> contains b sub
     \<or> (\<exists>u v. sub = u @ v \<and> u \<noteq> [] \<and> v \<noteq> [] \<and> (\<exists>p. a = p @ u) \<and> (\<exists>r. b = v @ r))"
proof -
  from assms obtain ps ss where e: "a @ b = ps @ sub @ ss" by (auto simp: contains_iff)
  then consider (l) us where "a = ps @ us" "us @ b = sub @ ss"
    | (r) us where "a @ us = ps" "b = us @ sub @ ss"
    by (auto simp: append_eq_append_conv2)
  then show ?thesis
  proof cases
    case l
    from l(2) consider (l1) vs where "us = sub @ vs" "vs @ b = ss"
      | (l2) vs where "us @ vs = sub" "b = vs @ ss"
      by (auto simp: append_eq_append_conv2)
    then show ?thesis
    proof cases
      case l1
      with l have "a = ps @ sub @ vs" by simp
      then show ?thesis unfolding contains_iff by blast
    next
      case l2
      show ?thesis
      proof (cases "us = [] \<or> vs = []")
        case True
        then show ?thesis
        proof
          assume "us = []"
          with l2 have "b = [] @ sub @ ss" by simp
          then show ?thesis unfolding contains_iff by blast
        next
          assume "vs = []"
          with l2 l have "a = ps @ sub @ []" by simp
          then show ?thesis unfolding contains_iff by blast
        qed
      next
        case False
        with l l2 show ?thesis by blast
      qed
    qed
  next
    case r
    then show ?thesis unfolding contains_iff by blast
  qed
qed

lemma contains_append_iff:
  assumes "a \<noteq> [] \<and> last a \<notin> set (butlast sub) \<or> b \<noteq> [] \<and> hd b \<notin> set (tl sub)"
  shows "contains (a @ b) sub \<longleftrightarrow> contains a sub \<or> contains b sub"
proof
  assume "contains (a @ b) sub"
  from contains_append_cases[OF this]
  show "contains a sub \<or> contains b sub"
  proof (elim disjE exE conjE)
    fix u v p r
    assume 3: "sub = u @ v" "u \<noteq> []" "v \<noteq> []" "a = p @ u" "b = v @ r"
    then have ab: "last a = last u" "hd b = hd v" "a \<noteq> []" "b \<noteq> []" by simp_all
    from 3 have "last u \<in> set (butlast sub)"
      by (simp add: butlast_append)
    then have la: "last a \<in> set (butlast sub)" by (simp only: ab)
    from 3 have "hd v \<in> set (tl sub)"
      by (cases u) simp_all
    then have hb: "hd b \<in> set (tl sub)" by (simp only: ab)
    from assms la hb have False by blast
    then show ?thesis ..
  qed simp_all
next
  assume "contains a sub \<or> contains b sub"
  then show "contains (a @ b) sub"
    using contains_appendI[of a sub "[]" b] contains_appendI[of b sub a "[]"] by auto
qed

section \<open>Facts about the classification\<close>

lemma startswith_take:
  "startswith s p \<Longrightarrow> startswith s q \<Longrightarrow> length q \<le> length p \<Longrightarrow> q = take (length q) p"
proof -
  assume p: "startswith s p" and q: "startswith s q" and l: "length q \<le> length p"
  have "take (length q) p = take (length q) (take (length p) s)"
    using p by (simp add: startswith_def)
  also have "\<dots> = take (length q) s"
    using l by (simp add: min_def)
  also have "\<dots> = q"
    using q by (simp add: startswith_def)
  finally show ?thesis by simp
qed

lemma startswith_hd: "startswith s (c # p) \<Longrightarrow> s \<noteq> [] \<and> hd s = c"
  by (cases s) simp_all

lemma strip_hd:
  assumes "s \<noteq> []" "\<not> isspace (hd s)"
  shows "strip s \<noteq> [] \<and> hd (strip s) = hd s"
proof -
  from assms obtain c cs where s: "s = c # cs" and c: "\<not> isspace c"
    by (cases s) auto
  have d: "dropWhile isspace s = s" using s c by simp
  have "rev s = rev cs @ [c]" using s by simp
  then have "dropWhile isspace (rev s) = dropWhile isspace (rev cs) @ [c]
      \<or> dropWhile isspace (rev s) = [c]"
    using c by (simp add: dropWhile_append)
  then have "\<exists>r. dropWhile isspace (rev s) = r @ [c]"
    by (metis append_Nil)
  then obtain r where "dropWhile isspace (rev s) = r @ [c]" by blast
  then have "strip s = c # rev r" by (simp add: strip_def d)
  then show ?thesis using s by simp
qed

lemma hash_not_space: "\<not> isspace (of_char CHR ''#'')"
  by (simp add: isspace_def)

lemma heading_strip:
  assumes "startswith line (of_char CHR ''#'' # p)"
  shows "strip line \<noteq> []" "strip line \<noteq> lit ''---''" "\<not> list_all isspace line"
proof -
  from startswith_hd[OF assms] have l: "line \<noteq> []" "hd line = of_char CHR ''#''" by simp_all
  with strip_hd[of line] hash_not_space have s: "strip line \<noteq> []" "hd (strip line) = of_char CHR ''#''"
    by simp_all
  show "strip line \<noteq> []" by fact
  show "strip line \<noteq> lit ''---''" using s(2) by auto
  show "\<not> list_all isspace line" using s(1) by (simp add: strip_Nil_iff)
qed

lemma applies_classify: "applies (classify line) line"
  by (simp add: classify_def strip_Nil_iff)

lemma applies_unique: "applies k line \<Longrightarrow> k = classify line"
proof (cases k)
  case H4
  assume "applies k line"
  with H4 show ?thesis by (simp add: classify_def)
next
  case H3
  assume "applies k line"
  with H3 have h: "startswith line (lit ''### '')" by simp
  have "\<not> startswith line (lit ''#### '')"
    using startswith_take[OF _ h, of "lit ''#### ''"] by auto
  with H3 h show ?thesis by (simp add: classify_def)
next
  case H2
  assume "applies k line"
  with H2 have h: "startswith line (lit ''## '')" by simp
  have "\<not> startswith line (lit ''#### '')" "\<not> startswith line (lit ''### '')"
    using startswith_take[OF _ h, of "lit ''#### ''"] startswith_take[OF _ h, of "lit ''### ''"]
    by auto
  with H2 h show ?thesis by (simp add: classify_def)
next
  case H1
  assume "applies k line"
  with H1 have h: "startswith line (lit ''# '')" by simp
  have "\<not> startswith line (lit ''#### '')" "\<not> startswith line (lit ''### '')"
    "\<not> startswith line (lit ''## '')"
    using startswith_take[OF _ h, of "lit ''#### ''"] startswith_take[OF _ h, of "lit ''### ''"]
      startswith_take[OF _ h, of "lit ''## ''"]
    by auto
  with H1 h show ?thesis by (simp add: classify_def)
next
  case HorizontalRule
  assume "applies k line"
  with HorizontalRule have h: "strip line = lit ''---''" by simp
  have "\<not> startswith line (lit ''#### '')" "\<not> startswith line (lit ''### '')"
    "\<not> startswith line (lit ''## '')" "\<not> startswith line (lit ''# '')"
    using heading_strip(2)[of line] h by auto
  with HorizontalRule h show ?thesis by (simp add: classify_def)
next
  case Paragraph
  assume "applies k line"
  with Paragraph show ?thesis by (simp add: classify_def)
next
  case LineBreak
  assume "applies k line"
  with LineBreak have h: "list_all isspace line" by simp
  then have s: "strip line = []" by (simp add: strip_Nil_iff)
  have "\<not> startswith line (lit ''#### '')" "\<not> startswith line (lit ''### '')"
    "\<not> startswith line (lit ''## '')" "\<not> startswith line (lit ''# '')"
    using heading_strip(3)[of line] h by auto
  with LineBreak s show ?thesis by (simp add: classify_def)
qed

lemma render_line_newline:
  "10 \<notin> set line \<Longrightarrow> 10 \<notin> set (render_line line)"
  by (cases "classify line") (auto simp: render_line_def dest: in_set_dropD)

section \<open>Facts about the renderer\<close>

lemma markdown_to_html_blocks:
  "markdown_to_html self m t = Inr (template t (join (lit ''\<newline>'') (formatted_lines m)))"
  by (simp add: markdown_to_html_def split_str_def escaped_def formatted_lines_def Let_def)

lemma formatted_lines_map:
  "formatted_lines m = map (\<lambda>l. render_line (escaped l)) (pieces m (lit ''\<newline>''))"
  using pieces_escaped[of m] by (simp add: formatted_lines_def format_loop_map)

lemma formatted_lines_newline:
  "b \<in> set (formatted_lines m) \<Longrightarrow> 10 \<notin> set b"
proof -
  assume "b \<in> set (formatted_lines m)"
  then obtain l where l: "l \<in> set (pieces (escaped m) [10])" and b: "b = render_line l"
    by (auto simp: formatted_lines_def format_loop_map)
  from l have "10 \<notin> set l" by (rule pieces_free)
  then show ?thesis unfolding b by (rule render_line_newline)
qed

lemma pieces_example:
  "pieces (lit ''A\<newline>\<newline>B'') (lit ''\<newline>'') = [lit ''A'', [], lit ''B'']"
  by (simp add: pieces_single_Cons)

lemma formatted_lines_example:
  "formatted_lines (lit ''A\<newline>\<newline>B'') = [lit ''<p>A</p>'', lit ''<br>'', lit ''<p>B</p>'']"
  by (simp add: formatted_lines_map pieces_single_Cons render_line_def classify_def escaped_eq
      escape_char_def strip_def isspace_def)

lemma formatted_lines_empty: "formatted_lines [] = [lit ''<br>'']"
  by (simp add: formatted_lines_map render_line_def classify_def strip_def)

lemma template_head_title:
  \<open>template_head = lit (''<!DOCTYPE html>\<newline><html>\<newline><head>\<newline>'' @
     ''    <meta charset="UTF-8">\<newline>    '') @ lit ''<title>''\<close>
  by (simp add: template_head_def)

lemma template_style_title: "\<exists>r. template_style = lit ''</title>'' @ r"
proof -
  have "\<exists>r. template_style = lit ''</title>\<newline>'' @ r"
    unfolding template_style_def map_append by (rule exI, rule refl)
  then obtain r where "template_style = lit ''</title>\<newline>'' @ r" ..
  then have "template_style = lit ''</title>'' @ (10 # r)" by simp
  then show ?thesis ..
qed

lemma exactly_one_kind: "\<exists>!k. applies k line"
  using applies_classify applies_unique by blast

lemma pieces_example2:
  "pieces (lit ''# x\<newline>'') (lit ''\<newline>'') = [lit ''# x'', []]"
  by (simp add: pieces_single_Cons)

lemma escaped_example: "escaped (lit ''A\<newline>\<newline>B'') = lit ''A\<newline>\<newline>B''"
  "escaped (lit ''# x\<newline>'') = lit ''# x\<newline>''"
  by (simp_all add: escaped_eq escape_char_def)

lemma escaped_hashes:
  assumes "startswith l (lit ''#####'')"
  shows "startswith (escaped l) (lit ''#####'')"
proof -
  from assms obtain r where "l = lit ''#####'' @ r" by (auto simp: startswith_iff)
  then have "escaped l = escaped (lit ''#####'') @ escaped r" by (simp only: escaped_append)
  moreover have "escaped (lit ''#####'') = lit ''#####''"
    by (simp add: escaped_eq escape_char_def)
  ultimately show ?thesis by (simp only: startswith_iff) blast
qed

lemma five_hashes_paragraph:
  assumes "startswith line (lit ''#####'')"
  shows "render_line line = lit ''<p>'' @ line @ lit ''</p>''"
proof -
  have n: "\<not> startswith line (lit ''#### '')" "\<not> startswith line (lit ''### '')"
    "\<not> startswith line (lit ''## '')" "\<not> startswith line (lit ''# '')"
    using startswith_take[OF assms, of "lit ''#### ''"] startswith_take[OF assms, of "lit ''### ''"]
      startswith_take[OF assms, of "lit ''## ''"] startswith_take[OF assms, of "lit ''# ''"]
    by auto
  from assms have "startswith line (of_char CHR ''#'' # lit ''####'')" by simp
  from heading_strip[OF this] n show ?thesis
    by (simp add: render_line_def classify_def)
qed

lemma pieces_example3:
  "pieces (lit ''##### x'') (lit ''\<newline>'') = [lit ''##### x'']"
  by (simp add: pieces_single_Cons)

lemma escaped_example3: "escaped (lit ''##### x'') = lit ''##### x''"
  by (simp add: escaped_eq escape_char_def)

section \<open>Facts about the document template\<close>

lemma contains_concat:
  assumes "sub \<noteq> []" "nl \<notin> set sub" "\<forall>l\<in>set ls. l \<noteq> [] \<and> last l = nl"
    and "contains (concat ls) sub"
  shows "\<exists>l\<in>set ls. contains l sub"
  using assms(3,4)
proof (induction ls)
  case Nil
  with assms(1) show ?case by simp
next
  case (Cons a ls)
  from Cons.prems(1) have a: "a \<noteq> []" "last a = nl" by simp_all
  have "last a \<notin> set (butlast sub)"
    using assms(2) a(2) by (auto dest: in_set_butlastD)
  with a(1) have "contains (a @ concat ls) sub \<longleftrightarrow> contains a sub \<or> contains (concat ls) sub"
    by (intro contains_append_iff) simp
  with Cons.prems(2) have "contains a sub \<or> contains (concat ls) sub" by simp
  then show ?case
  proof
    assume "contains a sub"
    then show ?thesis by simp
  next
    assume "contains (concat ls) sub"
    with Cons.IH Cons.prems(1) show ?thesis by simp
  qed
qed

lemma last_concat:
  "ls \<noteq> [] \<Longrightarrow> \<forall>l\<in>set ls. l \<noteq> [] \<and> last l = nl \<Longrightarrow> concat ls \<noteq> [] \<and> last (concat ls) = nl"
proof (induction ls)
  case Nil
  then show ?case by simp
next
  case (Cons a ls)
  show ?case
  proof (cases "ls = []")
    case True
    with Cons.prems show ?thesis by simp
  next
    case False
    with Cons.IH Cons.prems have "concat ls \<noteq> [] \<and> last (concat ls) = nl" by simp
    then show ?thesis by simp
  qed
qed

lemma template_style_free:
  \<open>template_style \<noteq> [] \<and> last template_style = 10
   \<and> \<not> contains template_style (lit ''<h1>'') \<and> \<not> contains template_style (lit ''<script>'')\<close>
proof -
  define ls where \<open>ls =
     [lit ''</title>\<newline>'',
      lit ''    <style>\<newline>'',
      lit ''        body {\<newline>'',
      lit ''            font-family: -apple-system, BlinkMacSystemFont, 'Segoe UI', Roboto, 'Helvetica Neue', Arial, sans-serif;\<newline>'',
      lit ''            max-width: 800px;\<newline>'',
      lit ''            margin: 40px auto;\<newline>'',
      lit ''            padding: 20px;\<newline>'',
      lit ''            line-height: 1.6;\<newline>'',
      lit ''            color: #333;\<newline>'',
      lit ''        }\<newline>'',
      lit ''        h1 { color: #2c3e50; border-bottom: 2px solid #3498db; padding-bottom: 10px; }\<newline>'',
      lit ''        h2 { color: #34495e; margin-top: 24px; }\<newline>'',
      lit ''        h3 { color: #7f8c8d; }\<newline>'',
      lit ''        pre {\<newline>'',
      lit ''            background: #f4f4f4;\<newline>'',
      lit ''            padding: 12px;\<newline>'',
      lit ''            border-radius: 5px;\<newline>'',
      lit ''            overflow-x: auto;\<newline>'',
      lit ''            border-left: 3px solid #3498db;\<newline>'',
      lit ''        }\<newline>'',
      lit ''        code {\<newline>'',
      lit ''            background: #f4f4f4;\<newline>'',
      lit ''            padding: 2px 6px;\<newline>'',
      lit ''            border-radius: 3px;\<newline>'',
      lit ''            font-family: 'Courier New', monospace;\<newline>'',
      lit ''        }\<newline>'',
      lit ''        p { margin: 12px 0; }\<newline>'',
      lit ''        hr { border: none; border-top: 1px solid #ddd; margin: 24px 0; }\<newline>'',
      lit ''    </style>\<newline>'',
      lit ''</head>\<newline>'',
      lit ''<body>\<newline>'']\<close>
  have e: "template_style = concat ls"
    unfolding ls_def
    by (simp only: template_style_def map_append concat.simps append_Nil2 append_assoc)
  have p: "\<forall>l\<in>set ls. l \<noteq> [] \<and> last l = 10"
    unfolding ls_def by simp
  have q: "\<forall>l\<in>set ls. \<not> contains l (lit ''<h1>'') \<and> \<not> contains l (lit ''<script>'')"
    unfolding ls_def by simp
  have n: "ls \<noteq> []" unfolding ls_def by simp
  have "\<not> contains (concat ls) (lit ''<h1>'')"
    using contains_concat[OF _ _ p, of "lit ''<h1>''"] q by auto
  moreover have "\<not> contains (concat ls) (lit ''<script>'')"
    using contains_concat[OF _ _ p, of "lit ''<script>''"] q by auto
  ultimately show ?thesis
    using last_concat[OF n p] by (simp only: e) simp
qed

lemma template_style_hd: "hd template_style = of_char CHR ''<''"
proof -
  obtain r where e: "template_style = lit ''</title>'' @ r"
    using template_style_title ..
  show ?thesis by (subst e) simp
qed

lemma template_head_free:
  "template_head \<noteq> [] \<and> last template_head = of_char CHR ''>''
   \<and> \<not> contains template_head (lit ''<h1>'') \<and> \<not> contains template_head (lit ''<script>'')"
  by (simp add: template_head_def)

lemma template_tail_free:
  "template_tail \<noteq> [] \<and> hd template_tail = 10
   \<and> \<not> contains template_tail (lit ''<h1>'') \<and> \<not> contains template_tail (lit ''<script>'')"
  by (simp add: template_tail_def)

text \<open>A tag-like text that occurs in the document occurs in the title or in the body.\<close>

lemma template_contains:
  assumes sub: "10 \<notin> set sub" "of_char CHR ''>'' \<notin> set (butlast sub)"
      "of_char CHR ''<'' \<notin> set (tl sub)"
    and free: "\<not> contains template_head sub" "\<not> contains template_style sub"
      "\<not> contains template_tail sub"
    and c: "contains (template t body) sub"
  shows "contains t sub \<or> contains body sub"
proof -
  have b: "10 \<notin> set (butlast sub)" "10 \<notin> set (tl sub)"
    using sub(1) by (cases sub; auto dest: in_set_butlastD)+
  have 1: "contains (template_head @ (t @ template_style @ body @ template_tail)) sub
      \<longleftrightarrow> contains template_head sub \<or> contains (t @ template_style @ body @ template_tail) sub"
    using template_head_free sub(2) by (intro contains_append_iff disjI1) simp
  have 2: "contains (t @ (template_style @ body @ template_tail)) sub
      \<longleftrightarrow> contains t sub \<or> contains (template_style @ body @ template_tail) sub"
    using template_style_free template_style_hd sub(3) by (intro contains_append_iff disjI2) simp
  have 3: "contains (template_style @ (body @ template_tail)) sub
      \<longleftrightarrow> contains template_style sub \<or> contains (body @ template_tail) sub"
    using template_style_free b(1) by (intro contains_append_iff disjI1) simp
  have 4: "contains (body @ template_tail) sub
      \<longleftrightarrow> contains body sub \<or> contains template_tail sub"
    using template_tail_free b(2) by (intro contains_append_iff disjI2) simp
  from c 1 2 3 4 free show ?thesis
    by (simp add: template_def)
qed

lemma template_containsI: "contains body sub \<Longrightarrow> contains (template t body) sub"
  unfolding template_def
  using contains_appendI[of body sub "template_head @ t @ template_style" template_tail]
  by simp

lemma formatted_lines_deep: "formatted_lines (lit ''#### Deep'') = [lit ''<h4>Deep</h4>'']"
  by (simp add: formatted_lines_map pieces_single_Cons render_line_def classify_def escaped_eq
      escape_char_def)

section \<open>Facts about escaped text in the body\<close>

lemma escaped_free:
  "of_char CHR ''<'' \<notin> set (escaped m) \<and> of_char CHR ''>'' \<notin> set (escaped m)"
  by (induction m) (simp_all add: escaped_Cons escape_char_def)

lemma set_join: "x \<in> set xs \<Longrightarrow> set x \<subseteq> set (join sep xs)"
  by (induction sep xs rule: join.induct) auto

lemma pieces_set: "l \<in> set (pieces s [c]) \<Longrightarrow> set l \<subseteq> set s"
  using set_join[of l "pieces s [c]" "[c]"] by (simp add: join_pieces)

lemma contains_single: "sub \<noteq> [] \<Longrightarrow> c \<notin> set sub \<Longrightarrow> \<not> contains [c] sub"
  by (cases sub) auto

lemma contains_join:
  assumes "sub \<noteq> []" "c \<notin> set sub" "contains (join [c] xs) sub"
  shows "\<exists>x\<in>set xs. contains x sub"
  using assms(3)
proof (induction xs)
  case Nil
  with assms(1) show ?case by simp
next
  case (Cons x xs)
  show ?case
  proof (cases xs)
    case Nil
    with Cons.prems show ?thesis by simp
  next
    case (Cons y ys)
    have t: "c \<notin> set (tl sub)" "c \<notin> set (butlast sub)"
      using assms(2) by (cases sub; auto dest: in_set_butlastD)+
    have "contains (x @ ([c] @ join [c] xs)) sub
        \<longleftrightarrow> contains x sub \<or> contains ([c] @ join [c] xs) sub"
      using t(1) by (intro contains_append_iff disjI2) simp
    moreover have "contains ([c] @ join [c] xs) sub
        \<longleftrightarrow> contains [c] sub \<or> contains (join [c] xs) sub"
      using t(2) by (intro contains_append_iff disjI1) simp
    moreover have "contains (x @ ([c] @ join [c] xs)) sub"
      using \<open>contains (join [c] (x # xs)) sub\<close> Cons by simp
    ultimately have "contains x sub \<or> contains (join [c] xs) sub"
      using contains_single[OF assms(1,2)] by simp
    then show ?thesis
    proof
      assume "contains x sub"
      then show ?thesis by simp
    next
      assume "contains (join [c] xs) sub"
      then have "\<exists>x\<in>set xs. contains x sub" by (rule Cons.IH)
      then show ?thesis by auto
    qed
  qed
qed

lemma contains_joinI: "x \<in> set xs \<Longrightarrow> contains x sub \<Longrightarrow> contains (join sep xs) sub"
proof (induction sep xs rule: join.induct)
  case (1 sep)
  then show ?case by simp
next
  case (2 sep y)
  then show ?case by simp
next
  case (3 sep y z zs)
  from "3.prems"(1) consider "x = y" | "x \<in> set (z # zs)" by auto
  then show ?case
  proof cases
    case 1
    with "3.prems"(2) show ?thesis
      using contains_appendI[of y sub "[]" "sep @ join sep (z # zs)"] by simp
  next
    case 2
    then have "contains (join sep (z # zs)) sub" using "3.IH" "3.prems"(2) by blast
    then show ?thesis
      using contains_appendI[of "join sep (z # zs)" sub "y @ sep" "[]"] by simp
  qed
qed

lemma contains_hd: "contains s sub \<Longrightarrow> sub \<noteq> [] \<Longrightarrow> hd sub \<in> set s"
  using contains_set[of s sub] by (cases sub) auto

text \<open>A tag-like text in a block occurs in its opening or in its closing tag.\<close>

lemma contains_wrapped:
  assumes c: "of_char CHR ''<'' \<notin> set content"
    and sub: "hd sub = of_char CHR ''<''" "sub \<noteq> []" "of_char CHR ''<'' \<notin> set (tl sub)"
      "of_char CHR ''>'' \<notin> set (butlast sub)"
    and tags: "opening \<noteq> []" "last opening = of_char CHR ''>''"
      "closing \<noteq> []" "hd closing = of_char CHR ''<''"
    and occ: "contains (opening @ content @ closing) sub"
  shows "contains opening sub \<or> contains closing sub"
proof -
  have "contains (opening @ (content @ closing)) sub
      \<longleftrightarrow> contains opening sub \<or> contains (content @ closing) sub"
    using tags(1,2) sub(4) by (intro contains_append_iff disjI1) simp
  moreover have "contains (content @ closing) sub
      \<longleftrightarrow> contains content sub \<or> contains closing sub"
    using tags(3,4) sub(3) by (intro contains_append_iff disjI2) simp
  moreover have "\<not> contains content sub"
    using contains_hd[of content sub] c sub(1,2) by auto
  ultimately show ?thesis using occ by simp
qed

lemma render_line_no_script:
  assumes "of_char CHR ''<'' \<notin> set l"
  shows "\<not> contains (render_line l) (lit ''<script>'')"
proof
  assume occ: "contains (render_line l) (lit ''<script>'')"
  have d: "of_char CHR ''<'' \<notin> set (drop n l)" for n
    using assms by (auto dest: in_set_dropD)
  show False
  proof (cases "classify l")
    case H4
    with occ have "contains (lit ''<h4>'' @ drop 5 l @ lit ''</h4>'') (lit ''<script>'')"
      by (simp only: render_line_def render_block.simps)
    from contains_wrapped[OF d _ _ _ _ _ _ _ _ this] show False by simp
  next
    case H3
    with occ have "contains (lit ''<h3>'' @ drop 4 l @ lit ''</h3>'') (lit ''<script>'')"
      by (simp only: render_line_def render_block.simps)
    from contains_wrapped[OF d _ _ _ _ _ _ _ _ this] show False by simp
  next
    case H2
    with occ have "contains (lit ''<h2>'' @ drop 3 l @ lit ''</h2>'') (lit ''<script>'')"
      by (simp only: render_line_def render_block.simps)
    from contains_wrapped[OF d _ _ _ _ _ _ _ _ this] show False by simp
  next
    case H1
    with occ have "contains (lit ''<h1>'' @ drop 2 l @ lit ''</h1>'') (lit ''<script>'')"
      by (simp only: render_line_def render_block.simps)
    from contains_wrapped[OF d _ _ _ _ _ _ _ _ this] show False by simp
  next
    case HorizontalRule
    with occ show False by (simp add: render_line_def)
  next
    case Paragraph
    with occ have "contains (lit ''<p>'' @ l @ lit ''</p>'') (lit ''<script>'')"
      by (simp only: render_line_def render_block.simps)
    from contains_wrapped[OF assms _ _ _ _ _ _ _ _ this] show False by simp
  next
    case LineBreak
    with occ show False by (simp add: render_line_def)
  qed
qed

lemma body_no_script:
  "\<not> contains (join (lit ''\<newline>'') (formatted_lines m)) (lit ''<script>'')"
proof
  assume "contains (join (lit ''\<newline>'') (formatted_lines m)) (lit ''<script>'')"
  then have "contains (join [10] (formatted_lines m)) (lit ''<script>'')" by simp
  then have "\<exists>b\<in>set (formatted_lines m). contains b (lit ''<script>'')"
    by (intro contains_join) simp_all
  then obtain l where l: "l \<in> set (pieces (escaped m) [10])"
    and c: "contains (render_line l) (lit ''<script>'')"
    by (auto simp: formatted_lines_def format_loop_map)
  from pieces_set[OF l] escaped_free[of m] have "of_char CHR ''<'' \<notin> set l" by blast
  from render_line_no_script[OF this] c show False ..
qed

lemma set_dropWhile_cases: "x \<in> set s \<Longrightarrow> P x \<or> x \<in> set (dropWhile P s)"
  by (induction s) auto

lemma strip_set: "x \<in> set l \<Longrightarrow> isspace x \<or> x \<in> set (strip l)"
proof -
  assume "x \<in> set l"
  then have "isspace x \<or> x \<in> set (dropWhile isspace l)"
    by (rule set_dropWhile_cases)
  then show ?thesis
  proof
    assume "isspace x"
    then show ?thesis ..
  next
    assume "x \<in> set (dropWhile isspace l)"
    then have "x \<in> set (rev (dropWhile isspace l))" by simp
    then have "isspace x \<or> x \<in> set (dropWhile isspace (rev (dropWhile isspace l)))"
      by (rule set_dropWhile_cases)
    then show ?thesis by (simp add: strip_def)
  qed
qed

lemma contains_skip:
  "contains (p @ r) sub \<Longrightarrow> sub \<noteq> [] \<Longrightarrow> set p \<inter> set sub = {} \<Longrightarrow> contains r sub"
proof (induction p)
  case Nil
  then show ?case by simp
next
  case (Cons c p)
  from Cons.prems(2,3) have "\<not> startswith (c # p @ r) sub"
    by (cases sub) auto
  with Cons.prems(1) have "contains (p @ r) sub" by simp
  with Cons.IH Cons.prems(2,3) show ?case by simp
qed

lemma contains_drop_marker:
  assumes "startswith l p" "contains l sub" "sub \<noteq> []" "set p \<inter> set sub = {}"
  shows "contains (drop (length p) l) sub"
proof -
  from assms(1) have "l = p @ drop (length p) l"
    by (simp add: startswith_def) (metis append_take_drop_id)
  with assms(2) have "contains (p @ drop (length p) l) sub" by simp
  from contains_skip[OF this assms(3,4)] show ?thesis .
qed

lemma amp_not_space: "\<not> isspace (of_char CHR ''&'')"
  by (simp add: isspace_def)

lemma render_line_keeps:
  assumes "contains l (lit ''&lt;script&gt;'')"
  shows "contains (render_line l) (lit ''&lt;script&gt;'')"
proof -
  let ?E = "lit ''&lt;script&gt;''"
  have amp: "of_char CHR ''&'' \<in> set l"
    using contains_hd[OF assms] by simp
  have k: "applies (classify l) l" by (rule applies_classify)
  have w: "contains (a @ drop n l @ b) ?E"
    if "startswith l p" "length p = n" "set p \<inter> set ?E = {}" for a b n p
  proof -
    from contains_drop_marker[OF that(1) assms _ that(3)] that(2)
    have "contains (drop n l) ?E" by auto
    then show ?thesis by (rule contains_appendI)
  qed
  show ?thesis
  proof (cases "classify l")
    case H4
    with k have h: "startswith l (lit ''#### '')" by simp
    have "contains (lit ''<h4>'' @ drop 5 l @ lit ''</h4>'') ?E"
      by (rule w[OF h]) simp_all
    with H4 show ?thesis by (simp only: render_line_def render_block.simps)
  next
    case H3
    with k have h: "startswith l (lit ''### '')" by simp
    have "contains (lit ''<h3>'' @ drop 4 l @ lit ''</h3>'') ?E"
      by (rule w[OF h]) simp_all
    with H3 show ?thesis by (simp only: render_line_def render_block.simps)
  next
    case H2
    with k have h: "startswith l (lit ''## '')" by simp
    have "contains (lit ''<h2>'' @ drop 3 l @ lit ''</h2>'') ?E"
      by (rule w[OF h]) simp_all
    with H2 show ?thesis by (simp only: render_line_def render_block.simps)
  next
    case H1
    with k have h: "startswith l (lit ''# '')" by simp
    have "contains (lit ''<h1>'' @ drop 2 l @ lit ''</h1>'') ?E"
      by (rule w[OF h]) simp_all
    with H1 show ?thesis by (simp only: render_line_def render_block.simps)
  next
    case HorizontalRule
    with k have "strip l = lit ''---''" by simp
    with strip_set[OF amp] amp_not_space have False by simp
    then show ?thesis ..
  next
    case Paragraph
    from contains_appendI[OF assms, of "lit ''<p>''" "lit ''</p>''"] Paragraph
    show ?thesis by (simp only: render_line_def render_block.simps)
  next
    case LineBreak
    with k have "list_all isspace l" by simp
    with amp amp_not_space have False by (auto simp: list_all_iff)
    then show ?thesis ..
  qed
qed

lemma contains_pieces:
  assumes "contains s sub" "sub \<noteq> []" "c \<notin> set sub"
  shows "\<exists>l\<in>set (pieces s [c]). contains l sub"
proof -
  from assms(1) have "contains (join [c] (pieces s [c])) sub"
    by (simp only: join_pieces)
  from contains_join[OF assms(2,3) this] show ?thesis .
qed

lemma body_keeps_script:
  assumes "contains m (lit ''<script>'')"
  shows "contains (join (lit ''\<newline>'') (formatted_lines m)) (lit ''&lt;script&gt;'')"
proof -
  have "escaped (lit ''<script>'') = lit ''&lt;script&gt;''"
    by (simp add: escaped_eq escape_char_def)
  with contains_escaped[OF assms] have "contains (escaped m) (lit ''&lt;script&gt;'')"
    by simp
  then have "\<exists>l\<in>set (pieces (escaped m) [10]). contains l (lit ''&lt;script&gt;'')"
    by (intro contains_pieces) simp_all
  then obtain l where l: "l \<in> set (pieces (escaped m) [10])"
    and c: "contains l (lit ''&lt;script&gt;'')" by blast
  from l have "render_line l \<in> set (formatted_lines m)"
    by (simp add: formatted_lines_def format_loop_map)
  from contains_joinI[OF this render_line_keeps[OF c]] show ?thesis .
qed

lemma formatted_lines_script:
  "formatted_lines (lit ''<script>'') = [lit ''<p>&lt;script&gt;</p>'']"
  by (simp add: formatted_lines_map pieces_single_Cons render_line_def classify_def escaped_eq
      escape_char_def strip_def isspace_def)

lemma h4_line:
  assumes "startswith l (lit ''#### '')"
  shows "render_line (escaped l) = lit ''<h4>'' @ escaped (drop 5 l) @ lit ''</h4>''"
proof -
  from assms obtain r where l: "l = lit ''#### '' @ r"
    by (auto simp: startswith_iff)
  then have r: "drop 5 l = r" by simp
  from l have "escaped l = escaped (lit ''#### '') @ escaped r"
    by (simp only: escaped_append)
  moreover have "escaped (lit ''#### '') = lit ''#### ''"
    by (simp add: escaped_eq escape_char_def)
  ultimately have e: "escaped l = lit ''#### '' @ escaped r" by simp
  then have "startswith (escaped l) (lit ''#### '')" "drop 5 (escaped l) = escaped r"
    by simp_all
  then show ?thesis by (simp add: render_line_def classify_def r)
qed

lemma pieces_example4:
  "pieces (lit ''x\<newline>#### Deep'') (lit ''\<newline>'') = [lit ''x'', lit ''#### Deep'']"
  by (simp add: pieces_single_Cons)

section \<open>Facts about escaped ampersands\<close>



















section \<open>Facts about the request handlers\<close>

lemma io_bind_Value [simp]: "io_bind ([], Value x) f = f x"
  by (simp add: io_bind_def split: prod.splits)

lemma call_Inr [simp]: "call (Inr x) = ([], Value x)"
  by (simp add: call_def)

lemma markdown_falsy:
  "map_of kvs (lit ''markdown'') = None \<or> map_of kvs (lit ''markdown'') = Some (JStr [])
   \<Longrightarrow> \<not> truthy (case map_of kvs (lit ''markdown'') of None \<Rightarrow> JStr [] | Some v \<Rightarrow> v)"
  by auto

lemma example_read:
  "read_post_data example_env (example_request p) = ([], Value (lit ''{}''))"
  by (simp add: read_post_data_def example_env_def example_request_def get_header_def lower_def)

lemma example_loads: "json_loads example_env (lit ''{}'') = Inr (JObj [])"
  by (simp add: example_env_def)

section \<open>The claims\<close>

text \<open>
  C1. The renderer produces exactly one block per line of the markdown text split on
  line feeds, in the order of the lines: the list of blocks is as long as the list of
  lines, block \<open>i\<close> is what the loop appends for the escaped line \<open>i\<close>, and the body of
  the document is the blocks joined by line feeds, from which splitting on line feeds
  gives the blocks back.
\<close>

theorem one_block_per_line:
  "markdown_to_html self m t = Inr (template t (join (lit ''\<newline>'') (formatted_lines m)))
   \<and> length (formatted_lines m) = length (pieces m (lit ''\<newline>''))
   \<and> (\<forall>i < length (pieces m (lit ''\<newline>'')).
         format_loop [escaped (pieces m (lit ''\<newline>'') ! i)] [] = [formatted_lines m ! i])
   \<and> pieces (join (lit ''\<newline>'') (formatted_lines m)) (lit ''\<newline>'') = formatted_lines m"
proof (intro conjI allI impI)
  show "markdown_to_html self m t = Inr (template t (join (lit ''\<newline>'') (formatted_lines m)))"
    by (rule markdown_to_html_blocks)
  show "length (formatted_lines m) = length (pieces m (lit ''\<newline>''))"
    by (simp add: formatted_lines_map)
  show "format_loop [escaped (pieces m (lit ''\<newline>'') ! i)] [] = [formatted_lines m ! i]"
    if "i < length (pieces m (lit ''\<newline>''))" for i
    using that by (simp only: format_loop_single formatted_lines_map nth_map)
  have "formatted_lines m \<noteq> []"
    by (simp add: formatted_lines_map)
  moreover have "\<forall>b\<in>set (formatted_lines m). 10 \<notin> set b"
    using formatted_lines_newline by blast
  ultimately have "pieces (join [10] (formatted_lines m)) [10] = formatted_lines m"
    by (rule pieces_join)
  then show "pieces (join (lit ''\<newline>'') (formatted_lines m)) (lit ''\<newline>'') = formatted_lines m"
    by simp
qed

theorem one_block_per_line_witness:
  "(1::nat) < length (pieces (lit ''A\<newline>\<newline>B'') (lit ''\<newline>''))
   \<and> format_loop [escaped (pieces (lit ''A\<newline>\<newline>B'') (lit ''\<newline>'') ! 1)] [] = [lit ''<br>'']
   \<and> length (formatted_lines (lit ''A\<newline>\<newline>B'')) = 3
   \<and> markdown_to_html \<lparr>path = [], headers = [], rfile = []\<rparr> (lit ''A\<newline>\<newline>B'') (lit ''T'')
       = Inr (template (lit ''T'') (join (lit ''\<newline>'')
           [lit ''<p>A</p>'', lit ''<br>'', lit ''<p>B</p>'']))"
proof -
  let ?m = "lit ''A\<newline>\<newline>B''"
  note T = one_block_per_line[of "\<lparr>path = [], headers = [], rfile = []\<rparr>" ?m "lit ''T''"]
  have a: "(1::nat) < length (pieces ?m (lit ''\<newline>''))"
    by (simp only: pieces_example) simp
  from T have "\<forall>i < length (pieces ?m (lit ''\<newline>'')).
      format_loop [escaped (pieces ?m (lit ''\<newline>'') ! i)] [] = [formatted_lines ?m ! i]"
    by (elim conjE)
  with a have "format_loop [escaped (pieces ?m (lit ''\<newline>'') ! 1)] [] = [formatted_lines ?m ! 1]"
    by blast
  then have b: "format_loop [escaped (pieces ?m (lit ''\<newline>'') ! 1)] [] = [lit ''<br>'']"
    by (simp only: formatted_lines_example) simp
  have c: "length (formatted_lines ?m) = 3"
    by (simp only: formatted_lines_example) simp
  from T have "markdown_to_html \<lparr>path = [], headers = [], rfile = []\<rparr> ?m (lit ''T'')
      = Inr (template (lit ''T'') (join (lit ''\<newline>'') (formatted_lines ?m)))"
    by (elim conjE)
  then have d: "markdown_to_html \<lparr>path = [], headers = [], rfile = []\<rparr> ?m (lit ''T'')
      = Inr (template (lit ''T'') (join (lit ''\<newline>'')
           [lit ''<p>A</p>'', lit ''<br>'', lit ''<p>B</p>'']))"
    by (simp only: formatted_lines_example)
  from a b c d show ?thesis by (intro conjI)
qed




text \<open>
  C3 (as the code has it). The empty markdown text is one empty line, so for every title
  the renderer returns the template wrapped around exactly one block, the line break
  \<^verbatim>\<open><br>\<close>.
\<close>

theorem empty_markdown_one_break:
  "formatted_lines (lit '''') = [lit ''<br>'']
   \<and> markdown_to_html self (lit '''') title = Inr (template title (lit ''<br>''))"
proof
  show "formatted_lines (lit '''') = [lit ''<br>'']"
    using formatted_lines_empty by simp
  show "markdown_to_html self (lit '''') title = Inr (template title (lit ''<br>''))"
    using markdown_to_html_blocks[of self "[]" title]
    by (simp only: list.map formatted_lines_empty join.simps)
qed

text \<open>
  The claim as stated, that the body of the document for the empty text holds no block,
  fails: the block list is not empty and the document is not the template around the
  empty join.
\<close>

theorem empty_markdown_counterexample:
  "formatted_lines (lit '''') \<noteq> []
   \<and> markdown_to_html \<lparr>path = [], headers = [], rfile = []\<rparr> (lit '''') (lit ''T'')
       \<noteq> Inr (template (lit ''T'') (join (lit ''\<newline>'') []))"
proof
  show "formatted_lines (lit '''') \<noteq> []"
    using formatted_lines_empty by simp
  have "markdown_to_html \<lparr>path = [], headers = [], rfile = []\<rparr> (lit '''') (lit ''T'')
      = Inr (template (lit ''T'') (lit ''<br>''))"
    using markdown_to_html_blocks[of "\<lparr>path = [], headers = [], rfile = []\<rparr>" "[]" "lit ''T''"]
    by (simp only: list.map formatted_lines_empty join.simps)
  moreover have "template (lit ''T'') (lit ''<br>'') \<noteq> template (lit ''T'') (join (lit ''\<newline>'') [])"
    by (simp add: template_def)
  ultimately show "markdown_to_html \<lparr>path = [], headers = [], rfile = []\<rparr> (lit '''') (lit ''T'')
       \<noteq> Inr (template (lit ''T'') (join (lit ''\<newline>'') []))"
    by simp
qed

text \<open>
  C4 (as the code has it). The marker \<^verbatim>\<open>#### \<close> is tested first: in every document,
  every line that starts with it is rendered as the level-4 heading around the escaped rest
  of the line, and the document contains that heading. For the input \<^verbatim>\<open>#### Deep\<close> the
  document is the template around \<^verbatim>\<open><h4>Deep</h4>\<close>, it contains that element, and it
  contains no \<^verbatim>\<open><h1>\<close> for every title that does not contain one itself.
\<close>

theorem heading_priority:
  "markdown_to_html self markdown title =
     Inr (template title (join (lit ''\<newline>'') (formatted_lines markdown)))
   \<and> (\<forall>i < length (pieces markdown (lit ''\<newline>'')).
         startswith (pieces markdown (lit ''\<newline>'') ! i) (lit ''#### '') \<longrightarrow>
           formatted_lines markdown ! i =
             lit ''<h4>'' @ escaped (drop 5 (pieces markdown (lit ''\<newline>'') ! i)) @ lit ''</h4>''
           \<and> contains (template title (join (lit ''\<newline>'') (formatted_lines markdown)))
               (lit ''<h4>'' @ escaped (drop 5 (pieces markdown (lit ''\<newline>'') ! i)) @ lit ''</h4>''))
   \<and> markdown_to_html self (lit ''#### Deep'') title = Inr (template title (lit ''<h4>Deep</h4>''))
   \<and> contains (template title (lit ''<h4>Deep</h4>'')) (lit ''<h4>Deep</h4>'')
   \<and> (\<not> contains title (lit ''<h1>'') \<longrightarrow>
        \<not> contains (template title (lit ''<h4>Deep</h4>'')) (lit ''<h1>''))"
proof (intro conjI allI impI)
  show "markdown_to_html self markdown title =
     Inr (template title (join (lit ''\<newline>'') (formatted_lines markdown)))"
    by (rule markdown_to_html_blocks)
  show b: "formatted_lines markdown ! i =
      lit ''<h4>'' @ escaped (drop 5 (pieces markdown (lit ''\<newline>'') ! i)) @ lit ''</h4>''"
    if "i < length (pieces markdown (lit ''\<newline>''))"
      "startswith (pieces markdown (lit ''\<newline>'') ! i) (lit ''#### '')" for i
    using that by (simp add: formatted_lines_map h4_line del: list.map)
  show "contains (template title (join (lit ''\<newline>'') (formatted_lines markdown)))
      (lit ''<h4>'' @ escaped (drop 5 (pieces markdown (lit ''\<newline>'') ! i)) @ lit ''</h4>'')"
    if i: "i < length (pieces markdown (lit ''\<newline>''))"
      and s: "startswith (pieces markdown (lit ''\<newline>'') ! i) (lit ''#### '')" for i
  proof -
    let ?b = "lit ''<h4>'' @ escaped (drop 5 (pieces markdown (lit ''\<newline>'') ! i)) @ lit ''</h4>''"
    from i have "i < length (formatted_lines markdown)"
      by (simp add: formatted_lines_map)
    then have "formatted_lines markdown ! i \<in> set (formatted_lines markdown)"
      by (rule nth_mem)
    then have m: "?b \<in> set (formatted_lines markdown)"
      by (simp only: b[OF i s])
    have "contains ?b ?b"
      unfolding contains_iff by (metis append_Nil append_Nil2)
    from contains_joinI[OF m this] show ?thesis by (rule template_containsI)
  qed
  show "markdown_to_html self (lit ''#### Deep'') title = Inr (template title (lit ''<h4>Deep</h4>''))"
    by (simp only: markdown_to_html_blocks formatted_lines_deep join.simps)
  have "contains (lit ''<h4>Deep</h4>'') (lit ''<h4>Deep</h4>'')" by simp
  then show "contains (template title (lit ''<h4>Deep</h4>'')) (lit ''<h4>Deep</h4>'')"
    by (rule template_containsI)
  show "\<not> contains (template title (lit ''<h4>Deep</h4>'')) (lit ''<h1>'')"
    if t: "\<not> contains title (lit ''<h1>'')"
  proof
    assume "contains (template title (lit ''<h4>Deep</h4>'')) (lit ''<h1>'')"
    then have "contains title (lit ''<h1>'') \<or> contains (lit ''<h4>Deep</h4>'') (lit ''<h1>'')"
      using template_head_free template_style_free template_tail_free
      by (intro template_contains) simp_all
    with t show False by simp
  qed
qed

theorem heading_priority_witness:
  "(1::nat) < length (pieces (lit ''x\<newline>#### Deep'') (lit ''\<newline>''))
   \<and> startswith (pieces (lit ''x\<newline>#### Deep'') (lit ''\<newline>'') ! 1) (lit ''#### '')
   \<and> formatted_lines (lit ''x\<newline>#### Deep'') ! 1 = lit ''<h4>Deep</h4>''
   \<and> \<not> contains (lit ''Conversation'') (lit ''<h1>'')
   \<and> \<not> contains (template (lit ''Conversation'') (lit ''<h4>Deep</h4>'')) (lit ''<h1>'')"
proof -
  let ?m = "lit ''x\<newline>#### Deep''"
  note T = heading_priority[of "\<lparr>path = [], headers = [], rfile = []\<rparr>" ?m "lit ''Conversation''"]
  have a: "(1::nat) < length (pieces ?m (lit ''\<newline>''))"
    by (simp only: pieces_example4) simp
  have b: "startswith (pieces ?m (lit ''\<newline>'') ! 1) (lit ''#### '')"
    by (simp only: pieces_example4) simp
  from T a b have "formatted_lines ?m ! 1 =
      lit ''<h4>'' @ escaped (drop 5 (pieces ?m (lit ''\<newline>'') ! 1)) @ lit ''</h4>''"
    by blast
  moreover have "lit ''<h4>'' @ escaped (drop 5 (pieces ?m (lit ''\<newline>'') ! 1)) @ lit ''</h4>''
      = lit ''<h4>Deep</h4>''"
    by (simp only: pieces_example4) (simp add: escaped_eq escape_char_def)
  ultimately have c: "formatted_lines ?m ! 1 = lit ''<h4>Deep</h4>''" by (simp only:)
  have d: "\<not> contains (lit ''Conversation'') (lit ''<h1>'')" by simp
  with T have e: "\<not> contains (template (lit ''Conversation'') (lit ''<h4>Deep</h4>'')) (lit ''<h1>'')"
    by blast
  from a b c d e show ?thesis by (intro conjI)
qed

text \<open>
  The claim as stated, with no condition on the title, fails: the title is inserted as
  it is, so with the title \<^verbatim>\<open><h1>\<close> the document for \<^verbatim>\<open>#### Deep\<close> contains
  \<^verbatim>\<open><h1>\<close>.
\<close>

theorem heading_in_title_counterexample:
  "markdown_to_html \<lparr>path = [], headers = [], rfile = []\<rparr> (lit ''#### Deep'') (lit ''<h1>'')
     = Inr (template (lit ''<h1>'') (lit ''<h4>Deep</h4>''))
   \<and> contains (template (lit ''<h1>'') (lit ''<h4>Deep</h4>'')) (lit ''<h1>'')"
proof (intro conjI)
  show "markdown_to_html \<lparr>path = [], headers = [], rfile = []\<rparr> (lit ''#### Deep'') (lit ''<h1>'')
     = Inr (template (lit ''<h1>'') (lit ''<h4>Deep</h4>''))"
    by (simp only: markdown_to_html_blocks formatted_lines_deep join.simps)
  have a: "contains (lit ''<h1>'') (lit ''<h1>'')" by simp
  show "contains (template (lit ''<h1>'') (lit ''<h4>Deep</h4>'')) (lit ''<h1>'')"
    unfolding template_def
    using contains_appendI[OF a, of template_head
        "template_style @ lit ''<h4>Deep</h4>'' @ template_tail"]
    by (simp only: append_assoc)
qed

text \<open>
  C5 (as the code has it). For every markdown text that contains \<^verbatim>\<open><script>\<close> the
  document contains \<^verbatim>\<open>&lt;script&gt;\<close>, whatever the class of the line it
  stands in; the body never contains a literal \<^verbatim>\<open><script>\<close>; and the whole
  document contains none for every title that does not contain one itself.
\<close>

theorem script_escaped:
  "contains markdown (lit ''<script>'') \<Longrightarrow>
   markdown_to_html self markdown title =
     Inr (template title (join (lit ''\<newline>'') (formatted_lines markdown)))
   \<and> contains (template title (join (lit ''\<newline>'') (formatted_lines markdown)))
        (lit ''&lt;script&gt;'')
   \<and> \<not> contains (join (lit ''\<newline>'') (formatted_lines markdown)) (lit ''<script>'')
   \<and> (\<not> contains title (lit ''<script>'') \<longrightarrow>
        \<not> contains (template title (join (lit ''\<newline>'') (formatted_lines markdown)))
          (lit ''<script>''))"
proof (intro conjI impI)
  assume m: "contains markdown (lit ''<script>'')"
  let ?body = "join (lit ''\<newline>'') (formatted_lines markdown)"
  show "markdown_to_html self markdown title = Inr (template title ?body)"
    by (rule markdown_to_html_blocks)
  show "contains (template title ?body) (lit ''&lt;script&gt;'')"
    using body_keeps_script[OF m] by (rule template_containsI)
  show b: "\<not> contains ?body (lit ''<script>'')"
    by (rule body_no_script)
  show "\<not> contains (template title ?body) (lit ''<script>'')"
    if t: "\<not> contains title (lit ''<script>'')"
  proof
    assume "contains (template title ?body) (lit ''<script>'')"
    then have "contains title (lit ''<script>'') \<or> contains ?body (lit ''<script>'')"
      using template_head_free template_style_free template_tail_free
      by (intro template_contains) simp_all
    with t b show False by simp
  qed
qed

theorem script_escaped_witness:
  "contains (lit ''<script>'') (lit ''<script>'')
   \<and> \<not> contains (lit ''Conversation Export'') (lit ''<script>'')
   \<and> markdown_to_html \<lparr>path = [], headers = [], rfile = []\<rparr> (lit ''<script>'')
         (lit ''Conversation Export'')
       = Inr (template (lit ''Conversation Export'') (lit ''<p>&lt;script&gt;</p>''))
   \<and> \<not> contains (template (lit ''Conversation Export'') (lit ''<p>&lt;script&gt;</p>''))
         (lit ''<script>'')"
proof -
  have a: "contains (lit ''<script>'') (lit ''<script>'')" by simp
  have b: "\<not> contains (lit ''Conversation Export'') (lit ''<script>'')" by simp
  have j: "join (lit ''\<newline>'') (formatted_lines (lit ''<script>'')) = lit ''<p>&lt;script&gt;</p>''"
    by (simp only: formatted_lines_script join.simps)
  note T = script_escaped[OF a, of "\<lparr>path = [], headers = [], rfile = []\<rparr>"
      "lit ''Conversation Export''"]
  from T have c: "markdown_to_html \<lparr>path = [], headers = [], rfile = []\<rparr> (lit ''<script>'')
         (lit ''Conversation Export'')
       = Inr (template (lit ''Conversation Export'') (lit ''<p>&lt;script&gt;</p>''))"
    by (simp only: j)
  from T b have d: "\<not> contains (template (lit ''Conversation Export'') (lit ''<p>&lt;script&gt;</p>''))
         (lit ''<script>'')"
    by (simp only: j) blast
  from a b c d show ?thesis by (intro conjI)
qed

text \<open>
  The claim as stated, for every title, fails: the title is inserted as it is, so a
  title \<^verbatim>\<open><script>\<close> puts a literal \<^verbatim>\<open><script>\<close> into the document.
\<close>

theorem script_in_title_counterexample:
  "contains (lit ''<script>'') (lit ''<script>'')
   \<and> markdown_to_html \<lparr>path = [], headers = [], rfile = []\<rparr> (lit ''<script>'') (lit ''<script>'')
       = Inr (template (lit ''<script>'') (lit ''<p>&lt;script&gt;</p>''))
   \<and> contains (template (lit ''<script>'') (lit ''<p>&lt;script&gt;</p>'')) (lit ''<script>'')"
proof (intro conjI)
  show a: "contains (lit ''<script>'') (lit ''<script>'')" by simp
  show "markdown_to_html \<lparr>path = [], headers = [], rfile = []\<rparr> (lit ''<script>'') (lit ''<script>'')
       = Inr (template (lit ''<script>'') (lit ''<p>&lt;script&gt;</p>''))"
    by (simp only: markdown_to_html_blocks formatted_lines_script join.simps)
  show "contains (template (lit ''<script>'') (lit ''<p>&lt;script&gt;</p>'')) (lit ''<script>'')"
    unfolding template_def
    using contains_appendI[OF a, of template_head
        "template_style @ lit ''<p>&lt;script&gt;</p>'' @ template_tail"]
    by (simp only: append_assoc)
qed

text \<open>
  C7. The title is inserted into the \<^verbatim>\<open><title>\<close> element code point for code point,
  with no escaping: the document is the fixed text before the element, the opening tag,
  the title as given, the closing tag and the rest.
\<close>

theorem title_verbatim:
  \<open>\<exists>rest. markdown_to_html self markdown title =
     Inr (lit (''<!DOCTYPE html>\<newline><html>\<newline><head>\<newline>'' @
               ''    <meta charset="UTF-8">\<newline>    '')
          @ lit ''<title>'' @ title @ lit ''</title>'' @ rest)\<close>
proof -
  obtain r where r: "template_style = lit ''</title>'' @ r"
    using template_style_title ..
  have "markdown_to_html self markdown title =
      Inr (template_head @ title @ template_style
           @ join (lit ''\<newline>'') (formatted_lines markdown) @ template_tail)"
    by (simp only: markdown_to_html_blocks template_def)
  then show ?thesis
    by (simp only: r template_head_title append_assoc) blast
qed

text \<open>
  C8. Classification is a function of the line alone. The body of the document is the
  join of one rendering function mapped over the escaped lines; that function renders
  the kind the first-match order selects; of the seven classifications as the
  specification words them exactly one applies to a line, and it is the selected one; and
  two texts with the same escaped line at a position have the same block there.
\<close>

theorem classification_per_line:
  "markdown_to_html self m t =
     Inr (template t (join (lit ''\<newline>'')
       (map render_line (pieces (escaped m) (lit ''\<newline>'')))))
   \<and> (\<forall>line. render_line line = render_block (classify line) line
          \<and> applies (classify line) line \<and> (\<exists>!k. applies k line))
   \<and> (\<forall>m' i. i < length (pieces (escaped m) (lit ''\<newline>''))
          \<and> i < length (pieces (escaped m') (lit ''\<newline>''))
          \<and> pieces (escaped m) (lit ''\<newline>'') ! i = pieces (escaped m') (lit ''\<newline>'') ! i
        \<longrightarrow> formatted_lines m ! i = formatted_lines m' ! i)"
proof (intro conjI allI impI)
  show "markdown_to_html self m t =
     Inr (template t (join (lit ''\<newline>'')
       (map render_line (pieces (escaped m) (lit ''\<newline>'')))))"
    by (rule markdown_to_html_eq)
  show "render_line line = render_block (classify line) line" for line
    by (rule render_line_def)
  show "applies (classify line) line" for line
    by (rule applies_classify)
  show "\<exists>!k. applies k line" for line
    by (rule exactly_one_kind)
  show "formatted_lines m ! i = formatted_lines m' ! i"
    if "i < length (pieces (escaped m) (lit ''\<newline>''))
        \<and> i < length (pieces (escaped m') (lit ''\<newline>''))
        \<and> pieces (escaped m) (lit ''\<newline>'') ! i = pieces (escaped m') (lit ''\<newline>'') ! i"
    for m' i
    using that by (simp add: formatted_lines_def format_loop_map)
qed

theorem classification_per_line_witness:
  "(1::nat) < length (pieces (escaped (lit ''A\<newline>\<newline>B'')) (lit ''\<newline>''))
   \<and> 1 < length (pieces (escaped (lit ''# x\<newline>'')) (lit ''\<newline>''))
   \<and> pieces (escaped (lit ''A\<newline>\<newline>B'')) (lit ''\<newline>'') ! 1
       = pieces (escaped (lit ''# x\<newline>'')) (lit ''\<newline>'') ! 1
   \<and> formatted_lines (lit ''A\<newline>\<newline>B'') ! 1 = formatted_lines (lit ''# x\<newline>'') ! 1
   \<and> applies (classify (lit ''# x'')) (lit ''# x'')"
proof -
  let ?m = "lit ''A\<newline>\<newline>B''" and ?m' = "lit ''# x\<newline>''"
  note T = classification_per_line[of "\<lparr>path = [], headers = [], rfile = []\<rparr>" ?m "lit ''T''"]
  have a: "(1::nat) < length (pieces (escaped ?m) (lit ''\<newline>''))"
    by (simp only: escaped_example pieces_example) simp
  have b: "(1::nat) < length (pieces (escaped ?m') (lit ''\<newline>''))"
    by (simp only: escaped_example pieces_example2) simp
  have c: "pieces (escaped ?m) (lit ''\<newline>'') ! 1 = pieces (escaped ?m') (lit ''\<newline>'') ! 1"
    by (simp only: escaped_example pieces_example pieces_example2) simp
  from T a b c have d: "formatted_lines ?m ! 1 = formatted_lines ?m' ! 1"
    by blast
  from T have e: "applies (classify (lit ''# x'')) (lit ''# x'')"
    by blast
  from a b c d e show ?thesis by (intro conjI)
qed

text \<open>
  C9. A POST to the conversion path of any of the three servers whose body was read and
  parsed to an object with no \<^verbatim>\<open>markdown\<close> field, or with the empty text in it, is
  answered with the error 400 \<^verbatim>\<open>No markdown content provided\<close> and the handler returns:
  that response is its only event, so no file is written, no script is run, no page is
  rendered for the backend and no backend is called.
\<close>

theorem missing_markdown_rejected:
  assumes "read_post_data env self = ([], Value post_data)"
    and "json_loads env post_data = Inr (JObj kvs)"
    and "map_of kvs (lit ''markdown'') = None \<or> map_of kvs (lit ''markdown'') = Some (JStr [])"
  shows "(path self = lit ''/api/convert'' \<longrightarrow>
           v2_do_POST env self =
             ([SendError 400 (Some (lit ''No markdown content provided''))], Returned)
           \<and> v1_do_POST env self =
             ([SendError 400 (Some (lit ''No markdown content provided''))], Returned))
       \<and> (path self = lit ''/convert'' \<longrightarrow>
           download_do_POST env self =
             ([SendError 400 (Some (lit ''No markdown content provided''))], Returned))"
proof (intro conjI impI)
  note f = markdown_falsy[OF assms(3)]
  assume p: "path self = lit ''/api/convert''"
  show "v2_do_POST env self =
      ([SendError 400 (Some (lit ''No markdown content provided''))], Returned)"
    unfolding v2_do_POST_def v2_try_def
    using f by (simp only: p if_True assms(1,2) io_bind_Value call_Inr dict_get.simps
        sum.case prod.case flow.case simp_thms)
  show "v1_do_POST env self =
      ([SendError 400 (Some (lit ''No markdown content provided''))], Returned)"
    unfolding v1_do_POST_def v1_try_def except_500_def
    using f by (simp only: p if_True assms(1,2) io_bind_Value call_Inr dict_get.simps
        sum.case prod.case flow.case simp_thms)
next
  note f = markdown_falsy[OF assms(3)]
  assume p: "path self = lit ''/convert''"
  show "download_do_POST env self =
      ([SendError 400 (Some (lit ''No markdown content provided''))], Returned)"
    unfolding download_do_POST_def
    using f by (simp only: p if_True assms(1,2) io_bind_Value call_Inr dict_get.simps
        sum.case prod.case flow.case simp_thms)
qed

theorem missing_markdown_rejected_witness:
  "read_post_data example_env (example_request (lit ''/api/convert'')) = ([], Value (lit ''{}''))
   \<and> json_loads example_env (lit ''{}'') = Inr (JObj [])
   \<and> map_of ([] :: (str \<times> json) list) (lit ''markdown'') = None
   \<and> v2_do_POST example_env (example_request (lit ''/api/convert'')) =
       ([SendError 400 (Some (lit ''No markdown content provided''))], Returned)
   \<and> v1_do_POST example_env (example_request (lit ''/api/convert'')) =
       ([SendError 400 (Some (lit ''No markdown content provided''))], Returned)
   \<and> download_do_POST example_env (example_request (lit ''/convert'')) =
       ([SendError 400 (Some (lit ''No markdown content provided''))], Returned)"
proof -
  have m: "map_of ([] :: (str \<times> json) list) (lit ''markdown'') = None
      \<or> map_of ([] :: (str \<times> json) list) (lit ''markdown'') = Some (JStr [])"
    by simp
  have p: "path (example_request q) = q" for q
    by (simp add: example_request_def)
  note A = missing_markdown_rejected[OF example_read example_loads m, of "lit ''/api/convert''"]
  note B = missing_markdown_rejected[OF example_read example_loads m, of "lit ''/convert''"]
  from A p have a: "v2_do_POST example_env (example_request (lit ''/api/convert'')) =
       ([SendError 400 (Some (lit ''No markdown content provided''))], Returned)"
    and b: "v1_do_POST example_env (example_request (lit ''/api/convert'')) =
       ([SendError 400 (Some (lit ''No markdown content provided''))], Returned)"
    by blast+
  from B p have c: "download_do_POST example_env (example_request (lit ''/convert'')) =
       ([SendError 400 (Some (lit ''No markdown content provided''))], Returned)"
    by blast
  have d: "map_of ([] :: (str \<times> json) list) (lit ''markdown'') = None" by simp
  from example_read example_loads d a b c show ?thesis by (intro conjI)
qed

text \<open>
  C10. A line that begins with five or more \<^verbatim>\<open>#\<close> matches no heading marker and is
  never blank, so its block is the paragraph around the escaped line, hashes included;
  the line \<^verbatim>\<open>##### x\<close> renders as \<^verbatim>\<open><p>##### x</p>\<close>.
\<close>

theorem five_hashes_is_paragraph:
  "i < length (pieces m (lit ''\<newline>'')) \<Longrightarrow>
   startswith (pieces m (lit ''\<newline>'') ! i) (lit ''#####'') \<Longrightarrow>
   formatted_lines m ! i = lit ''<p>'' @ escaped (pieces m (lit ''\<newline>'') ! i) @ lit ''</p>''"
  by (simp add: formatted_lines_map five_hashes_paragraph escaped_hashes del: list.map)

theorem five_hashes_is_paragraph_witness:
  "(0::nat) < length (pieces (lit ''##### x'') (lit ''\<newline>''))
   \<and> startswith (pieces (lit ''##### x'') (lit ''\<newline>'') ! 0) (lit ''#####'')
   \<and> formatted_lines (lit ''##### x'') ! 0 = lit ''<p>##### x</p>''"
proof -
  have a: "(0::nat) < length (pieces (lit ''##### x'') (lit ''\<newline>''))"
    by (simp only: pieces_example3) simp
  have b: "startswith (pieces (lit ''##### x'') (lit ''\<newline>'') ! 0) (lit ''#####'')"
    by (simp only: pieces_example3) simp
  have "formatted_lines (lit ''##### x'') ! 0 =
      lit ''<p>'' @ escaped (pieces (lit ''##### x'') (lit ''\<newline>'') ! 0) @ lit ''</p>''"
    using a b by (rule five_hashes_is_paragraph)
  then have c: "formatted_lines (lit ''##### x'') ! 0 = lit ''<p>##### x</p>''"
    by (simp only: pieces_example3 nth_Cons_0 escaped_example3) simp
  from a b c show ?thesis by (intro conjI)
qed

end
